theory Spec2Isabelle
  imports Main "HOL-Library.Word"
begin

unbundle bit_operations_syntax

section \<open>Signal handlers for memory zones (runtime/mercury\_memory\_handlers.c)\<close>

text \<open>
  A shallow embedding of the fault router, the two growth handlers, the abort path, the
  stack-dump emitter and the three signal-delivery conventions of
  \<^verbatim>\<open>mercury_memory_handlers.c\<close>.

  Addresses are machine words \<open>'a word\<close> of an arbitrary width (32 or 64 bits on the
  targets of the runtime; the records take the address type as their parameter), so
  \<open>(Unsigned) fault_addr + sizeof(Word)\<close> wraps around as it does in C. Everything the
  code writes to the error stream is collected as a list of chunks, one per
  \<open>write\<close>/\<open>fprintf\<close>/\<open>perror\<close> call, and \<open>exit\<close>/\<open>_exit\<close> is an explicit
  result carrying the exit status.
\<close>

subsection \<open>Results, output and sequencing\<close>

datatype 'r result = Returns 'r | Exits int

type_synonym 'r io = "string list \<times> 'r result"

definition ret :: "'r \<Rightarrow> 'r io" where
  "ret r = ([], Returns r)"

definition exit_io :: "int \<Rightarrow> 'r io" where
  "exit_io status = ([], Exits status)"

definition write_err :: "string \<Rightarrow> unit io" where
  "write_err s = ([s], Returns ())"

definition bind_io :: "'r io \<Rightarrow> ('r \<Rightarrow> 's io) \<Rightarrow> 's io" where
  "bind_io m k =
     (case m of
        (out, Exits status) \<Rightarrow> (out, Exits status)
      | (out, Returns r) \<Rightarrow> (case k r of (out', res) \<Rightarrow> (out @ out', res)))"

definition seq_io :: "unit io \<Rightarrow> 'r io \<Rightarrow> 'r io" where
  "seq_io m k = bind_io m (\<lambda>_. k)"

definition when_io :: "bool \<Rightarrow> unit io \<Rightarrow> unit io" where
  "when_io b m = (if b then m else ret ())"

definition writes_io :: "string list \<Rightarrow> unit io" where
  "writes_io chunks = (chunks, Returns ())"

definition stderr_of :: "'r io \<Rightarrow> string" where
  "stderr_of m = concat (fst m)"

subsection \<open>Formatting (\<open>%d\<close>, \<open>%ld\<close>, \<open>%x\<close>, \<open>%lx\<close>)\<close>

definition nl :: string where
  "nl = [CHR 0x0A]"

definition digit_char :: "nat \<Rightarrow> char" where
  "digit_char d = (''0123456789abcdef'') ! d"

function show_nat :: "nat \<Rightarrow> nat \<Rightarrow> string" where
  "show_nat b n =
     (if b < 2 \<or> n < b then [digit_char n] else show_nat b (n div b) @ [digit_char (n mod b)])"
  by pat_completeness auto
termination
  by (relation "measure (\<lambda>(b, n). n)") auto

declare show_nat.simps [simp del]

definition fmt_d :: "int \<Rightarrow> string" where
  "fmt_d i = (if i < 0 then ''-'' @ show_nat 10 (nat (- i)) else show_nat 10 (nat i))"

definition fmt_x :: "nat \<Rightarrow> string" where
  "fmt_x n = show_nat 16 n"

text \<open>
  \<open>sprintf(buf, ...)\<close> writes the formatted text and a terminating NUL into \<open>buf\<close>.
  \<open>fits_buf n text\<close>: the text fits \<open>char buf[n]\<close>. The functions below give the text
  that is formatted; where a text does not fit, the C overruns the buffer and its
  behaviour is undefined, so what the model says about the text a function writes is
  about the calls whose texts fit. The statements about written text carry that as a
  hypothesis.
\<close>

definition fits_buf :: "nat \<Rightarrow> string \<Rightarrow> bool" where
  "fits_buf n text = (length text < n)"


subsection \<open>Build configuration and run-time environment\<close>

text \<open>
  The three mutually exclusive signal-delivery conventions selected by
  \<open>HAVE_SIGCONTEXT_STRUCT\<close>, \<open>HAVE_SIGINFO_T\<close> or neither. \<open>HAVE_SIGINFO\<close> is
  defined exactly for the first two (the file does not compile otherwise).
\<close>

datatype sigconv = Sigcontext_struct | Siginfo_t | Simple_signal

text \<open>
  Modelled from the spec: the alignment unit (the global \<open>unit\<close>), the signal numbers
  and the \<open>si_code\<close> constants come from headers that are not part of the sources, and
  the rendering of \<open>%p\<close> is implementation defined; they are parameters of the build.
\<close>

record 'w build =
  conv :: sigconv
  HAVE_MPROTECT :: bool
  PC_ACCESS :: bool
  MR_LOWLEVEL_DEBUG :: bool
  unit :: "'w"
  SIGBUS :: int
  SIGSEGV :: int
  BUS_ADRALN :: int
  BUS_ADRERR :: int
  BUS_OBJERR :: int
  SEGV_MAPERR :: int
  SEGV_ACCERR :: int
  fmt_p :: "'w \<Rightarrow> string"

definition HAVE_SIGINFO :: "'a build \<Rightarrow> bool" where
  "HAVE_SIGINFO cfg = (conv cfg \<noteq> Simple_signal)"

definition full_capability :: "'a build \<Rightarrow> bool" where
  "full_capability cfg = (HAVE_MPROTECT cfg \<and> HAVE_SIGINFO cfg)"

text \<open>
  What the environment answers during one operation: the \<open>memdebug\<close> toggle, the result
  of \<open>mprotect(addr, len, PROT_READ|PROT_WRITE)\<close>, the text \<open>perror\<close> appends for
  \<open>errno\<close>, whether \<open>signal\<close>/\<open>sigaction\<close>/\<open>sigemptyset\<close> succeed, what the
  diagnostics collaborator prints (\<open>MR_trace_report_raw\<close>, \<open>MR_trace_report\<close>,
  \<open>dump_prev_locations\<close>), and the \<open>dumpindex\<close> labels recorded in the dump stack.
\<close>

record 'w env =
  memdebug :: bool
  mprotect :: "'w \<Rightarrow> 'w \<Rightarrow> int"
  strerror_errno :: string
  install_ok :: "int \<Rightarrow> bool"
  sigemptyset_ok :: bool
  trace_report_raw :: "string list"
  trace_report :: "string list"
  prev_locations :: "string list"
  dumpstack :: "string list"

text \<open>\<open>perror(s)\<close>: the text \<open>s\<close>, a colon and the message for \<open>errno\<close>.\<close>

definition perror :: "'w env \<Rightarrow> string \<Rightarrow> unit io" where
  "perror env s = write_err (s @ '': '' @ strerror_errno env @ nl)"

subsection \<open>Zones\<close>

text \<open>
  The growth policy bound to a zone: the function pointer \<open>zone->handler\<close>, which is
  one of the two handlers this file exports.
\<close>

datatype handler_fn = Default_handler | Null_handler

text \<open>
  Modelled from the spec: the \<open>MemoryZone\<close> structure is declared in
  \<^verbatim>\<open>mercury_memory_zones.h\<close>, which is not part of the sources; the fields are the ones
  the code reads (\<open>id\<close>, \<open>min\<close> and \<open>top\<close> carry a suffix). The \<open>next\<close> link is the
  order of the list that holds the registry.
\<close>

record 'w MemoryZone =
  name :: string
  id_zone :: int
  min_zone :: "'w"
  top_zone :: "'w"
  hardmax :: "'w"
  redzone :: "'w"
  handler :: handler_fn

text \<open>The machine context handed to a signal handler: the fault address register of the
  \<open>sigcontext\<close> convention and the program counter selected by \<open>PC_ACCESS\<close>.\<close>

record 'w sigcontext =
  cr2 :: "'w"
  pc :: "'w"

record 'w siginfo =
  si_signo :: int
  si_code :: int
  si_addr :: "'w"

definition sizeof_Word :: "'a::len word" where
  "sizeof_Word = of_nat (LENGTH('a) div 8)"

text \<open>
  Modelled from the spec: the macro \<open>round_up(amount, align)\<close> is defined in a header that
  is not part of the sources. By its comment it "returns amount rounded up to the nearest
  alignment boundary; align must be a power of 2": the least multiple of \<open>align\<close> that is
  at least \<open>amount\<close>, as a machine word (so truncated to the word size).
\<close>

definition round_up :: "'a::len word \<Rightarrow> 'a word \<Rightarrow> 'a word" where
  "round_up amount align =
     of_nat (((unat amount + unat align - 1) div unat align) * unat align)"

subsection \<open>The context message and the stack dump\<close>

text \<open>
  \<open>explain_context\<close> (both \<open>HAVE_SIGINFO\<close> conventions print the same line): the
  program counter as \<open>"PC at signal: %ld (%lx)\n"\<close> when \<open>PC_ACCESS\<close> is defined, the
  empty string otherwise. \<open>long\<close> has the width of an address. The line is formatted
  into \<open>char buf[100]\<close>, which holds it for a \<open>long\<close> of up to 64 bits.
\<close>

definition explain_context :: "'a::len word build \<Rightarrow> 'a word sigcontext \<Rightarrow> string" where
  "explain_context cfg the_context =
     (if PC_ACCESS cfg
      then ''PC at signal: '' @ fmt_d (sint (pc the_context)) @ '' ('' @
           fmt_x (unat (pc the_context)) @ '')'' @ nl
      else [])"

text \<open>
  The inner loop of \<open>print_dump_stack\<close>: while \<open>i < dumpindex\<close> and entry \<open>i\<close> equals
  entry \<open>start\<close> (\<open>strcmp(...) == 0\<close>), count it and move on. The list holds the
  \<open>dumpindex\<close> recorded labels.
\<close>

function dump_run :: "string list \<Rightarrow> nat \<Rightarrow> nat \<Rightarrow> nat \<Rightarrow> nat \<times> nat" where
  "dump_run ds start i count =
     (if i < length ds \<and> ds ! i = ds ! start
      then dump_run ds start (i + 1) (count + 1)
      else (i, count))"
  by pat_completeness auto
termination
  by (relation "measure (\<lambda>(ds, start, i, count). length ds - i)") auto

declare dump_run.simps [simp del]

text \<open>The outer loop: one line per run, \<open>"%s * %d\n"\<close> when \<open>count > 1\<close> and
  \<open>"%s\n"\<close> otherwise, each formatted into \<open>char buf[2560]\<close> (see \<open>dump_fits\<close>
  below).\<close>

function dump_lines :: "string list \<Rightarrow> nat \<Rightarrow> string list" where
  "dump_lines ds i =
     (if i < length ds
      then (let start = i;
                r = dump_run ds start (i + 1) 1;
                count = snd r;
                buf = (if count > 1
                       then ds ! start @ '' * '' @ fmt_d (int count) @ nl
                       else ds ! start @ nl)
            in buf # dump_lines ds (fst r))
      else [])"
  by pat_completeness auto
termination
proof (relation "measure (\<lambda>(ds, i). length ds - i)")
  show "wf (measure (\<lambda>(ds, i). length ds - i))" by simp
next
  fix ds :: "string list" and i start :: nat and r :: "nat \<times> nat"
  assume a: "i < length ds" "start = i" "r = dump_run ds start (i + 1) 1"
  have ge: "j \<le> fst (dump_run es s j c)" for es s j c
  proof (induction es s j c rule: dump_run.induct)
    case (1 es s j c)
    show ?case
    proof (cases "j < length es \<and> es ! j = es ! s")
      case True
      with "1.IH" have "j + 1 \<le> fst (dump_run es s (j + 1) (c + 1))" by simp
      with True show ?thesis by (subst dump_run.simps) simp
    next
      case False
      then show ?thesis by (subst dump_run.simps) auto
    qed
  qed
  have "i + 1 \<le> fst r" unfolding a(3) by (rule ge)
  with a(1) show "((ds, fst r), ds, i) \<in> measure (\<lambda>(ds, i). length ds - i)" by simp
qed

declare dump_lines.simps [simp del]

definition print_dump_stack :: "'w build \<Rightarrow> 'w env \<Rightarrow> unit io" where
  "print_dump_stack cfg env =
     (if \<not> MR_LOWLEVEL_DEBUG cfg
      then write_err (''You can get a stack dump by using '' @ [CHR 0x60] @
                      ''--low-level-debug'' @ [CHR 0x27] @ nl)
      else seq_io (write_err (''A dump of the det stack follows'' @ nl @ nl))
          (seq_io (writes_io (dump_lines (dumpstack env) 0))
                  (write_err (nl @ ''end of stack dump'' @ nl))))"

text \<open>
  Every line that \<open>print_dump_stack\<close> formats fits its \<open>char buf[2560]\<close> (nothing is
  formatted without \<open>MR_LOWLEVEL_DEBUG\<close>). Only then does the C function write the lines
  that \<open>dump_lines\<close> gives and return; a longer line overruns the buffer.
\<close>

definition dump_fits :: "'w build \<Rightarrow> 'w env \<Rightarrow> bool" where
  "dump_fits cfg env =
     (MR_LOWLEVEL_DEBUG cfg \<longrightarrow> list_all (fits_buf 2560) (dump_lines (dumpstack env) 0))"

subsection \<open>The abort path\<close>

definition fatal_abort ::
  "'a::len word build \<Rightarrow> 'a word env \<Rightarrow> 'a word sigcontext \<Rightarrow> string \<Rightarrow> int \<Rightarrow> unit io" where
  "fatal_abort cfg env ctx main_msg dump =
     (let context_msg = explain_context cfg ctx
      in seq_io (write_err main_msg)
        (seq_io (write_err context_msg)
        (seq_io (writes_io (trace_report_raw env))
        (seq_io (when_io (dump \<noteq> 0) (print_dump_stack cfg env))
                (exit_io 1)))))"

subsection \<open>The growth handlers\<close>

definition zone_label :: "'w MemoryZone \<Rightarrow> string" where
  "zone_label zone = name zone @ ''#'' @ fmt_d (id_zone zone)"

text \<open>
  \<open>default_handler\<close>. Without \<open>HAVE_MPROTECT\<close> and \<open>HAVE_SIGINFO\<close> the function is
  the stub that returns \<open>FALSE\<close>. \<open>(int) zone_size\<close> printed with \<open>%x\<close> shows the low
  32 bits. The statement after \<open>fatal_abort\<close> is kept: it runs if \<open>fatal_abort\<close> returns.
  The two messages built with \<open>sprintf\<close> (\<open>"... cannot unprotect %s#%d zone"\<close> and
  \<open>"\nMercury runtime: memory zone %s#%d overflowed\n"\<close>) are formatted into
  \<open>char buf[2560]\<close>: the model gives their text for a zone name of any length, and is
  about the C only where \<open>fits_buf 2560\<close> holds of the message.
\<close>

definition default_handler ::
  "'a::len word build \<Rightarrow> 'a word env \<Rightarrow> 'a word \<Rightarrow> 'a word MemoryZone \<Rightarrow> 'a word sigcontext
     \<Rightarrow> (bool \<times> 'a word MemoryZone) io" where
  "default_handler cfg env fault_addr zone ctx =
     (if \<not> full_capability cfg then ret (False, zone)
      else
        let new_zone = round_up (fault_addr + sizeof_Word) (unit cfg) in
        if new_zone \<le> hardmax zone then
          (let zone_size = new_zone - redzone zone in
           seq_io (when_io (memdebug env)
                     (write_err (''trying to unprotect '' @ zone_label zone @ '' from '' @
                        fmt_p cfg (redzone zone) @ '' to '' @ fmt_p cfg new_zone @ '' ('' @
                        fmt_x (unat zone_size mod 2 ^ 32) @ '')'' @ nl)))
          (seq_io (when_io (mprotect env (redzone zone) zone_size < 0)
                     (seq_io (perror env (''Mercury runtime: cannot unprotect '' @
                                zone_label zone @ '' zone''))
                             (exit_io 1)))
          (let zone' = zone\<lparr>redzone := new_zone\<rparr> in
           seq_io (when_io (memdebug env)
                     (write_err (''successful: '' @ zone_label zone' @ '' redzone now '' @
                        fmt_p cfg (redzone zone') @ '' to '' @ fmt_p cfg (top_zone zone') @ nl)))
                  (ret (True, zone')))))
        else
          seq_io (when_io (memdebug env)
                    (write_err (''can'' @ [CHR 0x27] @ ''t unprotect last page of '' @
                       zone_label zone @ nl)))
         (seq_io (fatal_abort cfg env ctx
                    (nl @ ''Mercury runtime: memory zone '' @ zone_label zone @
                     '' overflowed'' @ nl) 1)
                 (ret (False, zone))))"

definition null_handler ::
  "'a::len word build \<Rightarrow> 'a word env \<Rightarrow> 'a word \<Rightarrow> 'a word MemoryZone \<Rightarrow> 'a word sigcontext
     \<Rightarrow> (bool \<times> 'a word MemoryZone) io" where
  "null_handler cfg env fault_addr zone ctx = ret (False, zone)"

text \<open>The call through the function pointer, \<open>zone->handler(fault_addr, zone, context)\<close>.\<close>

definition call_handler ::
  "handler_fn \<Rightarrow> 'a::len word build \<Rightarrow> 'a word env \<Rightarrow> 'a word \<Rightarrow> 'a word MemoryZone
     \<Rightarrow> 'a word sigcontext \<Rightarrow> (bool \<times> 'a word MemoryZone) io" where
  "call_handler h cfg env fault_addr zone ctx =
     (case h of
        Default_handler \<Rightarrow> default_handler cfg env fault_addr zone ctx
      | Null_handler \<Rightarrow> null_handler cfg env fault_addr zone ctx)"

subsection \<open>The fault router\<close>

text \<open>
  The \<open>while (zone != NULL)\<close> loop of \<open>try_munprotect\<close> over the registry from
  \<open>get_used_memory_zones()\<close>, a list in the order of the \<open>next\<close> links. A handler
  mutates its zone in place; the loop returns the registry with that zone updated.
\<close>

fun zone_loop ::
  "'a::len word build \<Rightarrow> 'a word env \<Rightarrow> 'a word \<Rightarrow> 'a word sigcontext
     \<Rightarrow> 'a word MemoryZone list \<Rightarrow> (bool \<times> 'a word MemoryZone list) io" where
  "zone_loop cfg env fault_addr ctx [] =
     seq_io (when_io (memdebug env) (write_err (''address not in any redzone.'' @ nl)))
            (ret (False, []))"
| "zone_loop cfg env fault_addr ctx (zone # rest) =
     seq_io (when_io (memdebug env)
               (write_err (''checking '' @ zone_label zone @ '': '' @ fmt_p cfg (redzone zone) @
                  '' - '' @ fmt_p cfg (top_zone zone) @ nl)))
       (if redzone zone \<le> fault_addr \<and> fault_addr \<le> top_zone zone
        then seq_io (when_io (memdebug env)
                       (write_err (''address is in '' @ zone_label zone @ '' redzone'' @ nl)))
                    (bind_io (call_handler (handler zone) cfg env fault_addr zone ctx)
                       (\<lambda>(handled, zone'). ret (handled, zone' # rest)))
        else bind_io (zone_loop cfg env fault_addr ctx rest)
               (\<lambda>(handled, rest'). ret (handled, zone # rest')))"

definition try_munprotect ::
  "'a::len word build \<Rightarrow> 'a word env \<Rightarrow> 'a word \<Rightarrow> 'a word sigcontext
     \<Rightarrow> 'a word MemoryZone list \<Rightarrow> (bool \<times> 'a word MemoryZone list) io" where
  "try_munprotect cfg env addr ctx zones =
     (if \<not> full_capability cfg then ret (False, zones)
      else seq_io (when_io (memdebug env)
                     (write_err (''caught fault at '' @ fmt_p cfg addr @ nl)))
                  (zone_loop cfg env addr ctx zones))"

subsection \<open>Signal handlers\<close>

text \<open>
  \<open>complex_sighandler\<close> (\<open>HAVE_SIGCONTEXT_STRUCT\<close>). The switch yields \<open>Some\<close> of the
  registry where the handler returns to the interrupted code and \<open>None\<close> where it
  breaks out to the common tail, which exits.
\<close>

definition complex_sighandler ::
  "'a::len word build \<Rightarrow> 'a word env \<Rightarrow> int \<Rightarrow> 'a word sigcontext \<Rightarrow> 'a word MemoryZone list
     \<Rightarrow> 'a word MemoryZone list io" where
  "complex_sighandler cfg env sig sigcontext zones =
     (let address = cr2 sigcontext;
          pc_at_signal = pc sigcontext
      in bind_io
           (if sig = SIGSEGV cfg then
              seq_io (when_io (memdebug env)
                        (write_err (nl @ ''*** Mercury runtime: caught segmentation violation ***''
                                    @ nl)))
                (bind_io (try_munprotect cfg env address sigcontext zones)
                   (\<lambda>(handled, zones').
                      if handled
                      then seq_io (when_io (memdebug env)
                                     (write_err (''returning from signal handler'' @ nl @ nl)))
                                  (ret (Some zones'))
                      else seq_io (when_io (\<not> memdebug env)
                                     (write_err (nl @
                                        ''*** Mercury runtime: caught segmentation violation ***''
                                        @ nl)))
                                  (ret None)))
            else if sig = SIGBUS cfg then
              seq_io (write_err (nl @ ''*** Mercury runtime: caught bus error ***'' @ nl))
                     (ret None)
            else
              seq_io (write_err (nl @ ''*** Mercury runtime: caught unknown signal '' @
                                 fmt_d sig @ '' ***'' @ nl))
                     (ret None))
           (\<lambda>returned.
              case returned of
                Some zones' \<Rightarrow> ret zones'
              | None \<Rightarrow>
                  seq_io (when_io (PC_ACCESS cfg)
                            (write_err (''PC at signal: '' @ fmt_d (sint pc_at_signal) @ '' ('' @
                                        fmt_x (unat pc_at_signal) @ '')'' @ nl)))
                  (seq_io (write_err (''address involved: '' @ fmt_p cfg address @ nl))
                  (seq_io (writes_io (trace_report env))
                  (seq_io (print_dump_stack cfg env)
                  (seq_io (writes_io (prev_locations env))
                  (seq_io (write_err (''exiting from signal handler'' @ nl))
                          (exit_io 1))))))))"

text \<open>\<open>complex_bushandler\<close> (\<open>HAVE_SIGINFO_T\<close>); \<open>info\<close> may be the null pointer.\<close>

definition complex_bushandler ::
  "'a::len word build \<Rightarrow> 'a word env \<Rightarrow> int \<Rightarrow> 'a word siginfo option \<Rightarrow> 'a word sigcontext
     \<Rightarrow> unit io" where
  "complex_bushandler cfg env sig info ctx =
     (if sig \<noteq> SIGBUS cfg \<or> info = None \<or> si_signo (the info) \<noteq> SIGBUS cfg then
        seq_io (write_err (nl @ ''*** Mercury runtime: ''))
       (seq_io (write_err (''caught strange bus error ***'' @ nl))
               (exit_io 1))
      else
        seq_io (write_err (nl @ ''*** Mercury runtime: ''))
       (seq_io (write_err (''caught bus error ***'' @ nl))
       (seq_io (when_io (si_code (the info) > 0)
                  (seq_io (write_err ''cause: '')
                  (seq_io (if si_code (the info) = BUS_ADRALN cfg
                           then write_err (''invalid address alignment'' @ nl)
                           else if si_code (the info) = BUS_ADRERR cfg
                           then write_err (''non-existent physical address'' @ nl)
                           else if si_code (the info) = BUS_OBJERR cfg
                           then write_err (''object specific hardware error'' @ nl)
                           else write_err (''unknown'' @ nl))
                  (seq_io (write_err (explain_context cfg ctx))
                          (write_err (''address involved: '' @
                                      fmt_p cfg (si_addr (the info)) @ nl))))))
       (seq_io (writes_io (trace_report env))
       (seq_io (print_dump_stack cfg env)
       (seq_io (writes_io (prev_locations env))
       (seq_io (write_err (''exiting from signal handler'' @ nl))
               (exit_io 1))))))))"

definition explain_segv ::
  "'a::len word build \<Rightarrow> 'a word siginfo option \<Rightarrow> 'a word sigcontext \<Rightarrow> unit io" where
  "explain_segv cfg info ctx =
     seq_io (write_err (nl @ ''*** Mercury runtime: ''))
    (seq_io (write_err (''caught segmentation violation ***'' @ nl))
       (if info = None then ret ()
        else when_io (si_code (the info) > 0)
               (seq_io (write_err ''cause: '')
               (seq_io (if si_code (the info) = SEGV_MAPERR cfg
                        then write_err (''address not mapped to object'' @ nl)
                        else if si_code (the info) = SEGV_ACCERR cfg
                        then write_err (''bad permissions for mapped object'' @ nl)
                        else write_err (''unknown'' @ nl))
               (seq_io (write_err (explain_context cfg ctx))
                       (write_err (''address involved: '' @
                                   fmt_p cfg (si_addr (the info)) @ nl)))))))"

definition complex_segvhandler ::
  "'a::len word build \<Rightarrow> 'a word env \<Rightarrow> int \<Rightarrow> 'a word siginfo option \<Rightarrow> 'a word sigcontext
     \<Rightarrow> 'a word MemoryZone list \<Rightarrow> 'a word MemoryZone list io" where
  "complex_segvhandler cfg env sig info ctx zones =
     (if sig \<noteq> SIGSEGV cfg \<or> info = None \<or> si_signo (the info) \<noteq> SIGSEGV cfg then
        seq_io (write_err (nl @ ''*** Mercury runtime: ''))
       (seq_io (write_err (''caught strange segmentation violation ***'' @ nl))
               (exit_io 1))
      else
        seq_io (when_io (memdebug env) (explain_segv cfg info ctx))
          (bind_io (try_munprotect cfg env (si_addr (the info)) ctx zones)
             (\<lambda>(handled, zones').
                if handled
                then seq_io (when_io (memdebug env)
                               (write_err (''returning from signal handler'' @ nl @ nl)))
                            (ret zones')
                else seq_io (when_io (\<not> memdebug env) (explain_segv cfg info ctx))
                    (seq_io (writes_io (trace_report env))
                    (seq_io (print_dump_stack cfg env)
                    (seq_io (writes_io (prev_locations env))
                    (seq_io (write_err (''exiting from signal handler'' @ nl))
                            (exit_io 1))))))))"

definition simple_sighandler :: "'w build \<Rightarrow> 'w env \<Rightarrow> int \<Rightarrow> unit io" where
  "simple_sighandler cfg env sig =
     seq_io (write_err ''*** Mercury runtime: '')
    (seq_io (if sig = SIGBUS cfg then write_err (''caught bus error ***'' @ nl)
             else if sig = SIGSEGV cfg
             then write_err (''caught segmentation violation ***'' @ nl)
             else write_err (''caught unknown signal '' @ fmt_d sig @ '' ***'' @ nl))
    (seq_io (print_dump_stack cfg env)
    (seq_io (writes_io (prev_locations env))
    (seq_io (write_err (''exiting from signal handler'' @ nl))
            (exit_io 1)))))"

subsection \<open>Installing the handlers\<close>

datatype sighandler =
  Complex_sighandler | Complex_bushandler | Complex_segvhandler | Simple_sighandler

text \<open>
  \<open>setup_signal\<close>, one body per convention. It returns the registrations it made
  (signal number, handler); \<open>install_ok env sig\<close> tells whether \<open>signal\<close> or
  \<open>sigaction\<close> succeeds for \<open>sig\<close>.
\<close>

definition setup_signal :: "'w build \<Rightarrow> 'w env \<Rightarrow> (int \<times> sighandler) list io" where
  "setup_signal cfg env =
     (case conv cfg of
        Sigcontext_struct \<Rightarrow>
          seq_io (when_io (\<not> install_ok env (SIGBUS cfg))
                    (seq_io (perror env ''cannot set SIGBUS handler'') (exit_io 1)))
         (seq_io (when_io (\<not> install_ok env (SIGSEGV cfg))
                    (seq_io (perror env ''cannot set SIGSEGV handler'') (exit_io 1)))
                 (ret [(SIGBUS cfg, Complex_sighandler), (SIGSEGV cfg, Complex_sighandler)]))
      | Siginfo_t \<Rightarrow>
          seq_io (when_io (\<not> sigemptyset_ok env)
                    (seq_io (perror env ''Mercury runtime: cannot set clear signal mask'')
                            (exit_io 1)))
         (seq_io (when_io (\<not> install_ok env (SIGBUS cfg))
                    (seq_io (perror env ''Mercury runtime: cannot set SIGBUS handler'')
                            (exit_io 1)))
         (seq_io (when_io (\<not> install_ok env (SIGSEGV cfg))
                    (seq_io (perror env ''Mercury runtime: cannot set SIGSEGV handler'')
                            (exit_io 1)))
                 (ret [(SIGBUS cfg, Complex_bushandler), (SIGSEGV cfg, Complex_segvhandler)])))
      | Simple_signal \<Rightarrow>
          seq_io (when_io (\<not> install_ok env (SIGBUS cfg))
                    (seq_io (perror env ''cannot set SIGBUS handler'') (exit_io 1)))
         (seq_io (when_io (\<not> install_ok env (SIGSEGV cfg))
                    (seq_io (perror env ''cannot set SIGSEGV handler'') (exit_io 1)))
                 (ret [(SIGBUS cfg, Simple_sighandler), (SIGSEGV cfg, Simple_sighandler)])))"

text \<open>The delivery of a signal to one of the handlers, in the shape the three
  conventions share: signal number, optional fault descriptor, machine context.\<close>

definition deliver ::
  "sighandler \<Rightarrow> 'a::len word build \<Rightarrow> 'a word env \<Rightarrow> int \<Rightarrow> 'a word siginfo option
     \<Rightarrow> 'a word sigcontext \<Rightarrow> 'a word MemoryZone list \<Rightarrow> 'a word MemoryZone list io" where
  "deliver h cfg env sig info ctx zones =
     (case h of
        Complex_sighandler \<Rightarrow> complex_sighandler cfg env sig ctx zones
      | Complex_bushandler \<Rightarrow>
          bind_io (complex_bushandler cfg env sig info ctx) (\<lambda>_. ret zones)
      | Complex_segvhandler \<Rightarrow> complex_segvhandler cfg env sig info ctx zones
      | Simple_sighandler \<Rightarrow> bind_io (simple_sighandler cfg env sig) (\<lambda>_. ret zones))"

subsection \<open>Operations of the core on the registry\<close>

text \<open>
  The entry points through which the core acts on the registry: installing the handlers,
  routing a fault address, and the delivery of a signal to a handler (which routes, and
  through the router calls the growth handler of the matched zone).
\<close>

datatype 'w operation =
  Setup_signal
| Route 'w "'w sigcontext"
| Deliver sighandler int "'w siginfo option" "'w sigcontext"

definition exec_op ::
  "'a::len word build \<Rightarrow> 'a word env \<Rightarrow> 'a word operation \<Rightarrow> 'a word MemoryZone list
     \<Rightarrow> 'a word MemoryZone list io" where
  "exec_op cfg env op zones =
     (case op of
        Setup_signal \<Rightarrow> bind_io (setup_signal cfg env) (\<lambda>_. ret zones)
      | Route addr ctx \<Rightarrow>
          bind_io (try_munprotect cfg env addr ctx zones) (\<lambda>(handled, zones'). ret zones')
      | Deliver h sig info ctx \<Rightarrow> deliver h cfg env sig info ctx zones)"

text \<open>A sequence of operations, each under what the environment answers at that time;
  it stops at the first operation that terminates the process.\<close>

fun run ::
  "'a::len word build \<Rightarrow> ('a word env \<times> 'a word operation) list \<Rightarrow> 'a word MemoryZone list
     \<Rightarrow> 'a word MemoryZone list io" where
  "run cfg [] zones = ret zones"
| "run cfg (step # steps) zones =
     bind_io (exec_op cfg (fst step) (snd step) zones) (run cfg steps)"

subsection \<open>Predicates on zones and addresses\<close>

text \<open>The router's test, \<open>zone->redzone <= fault_addr && fault_addr <= zone->top\<close>.\<close>

definition in_redzone :: "'a::len word \<Rightarrow> 'a word MemoryZone \<Rightarrow> bool" where
  "in_redzone fault_addr zone = (redzone zone \<le> fault_addr \<and> fault_addr \<le> top_zone zone)"

text \<open>The chain of the data model, \<open>min \<le> redzone \<le> top \<le> hardmax\<close>.\<close>

definition zone_chain :: "'a::len word MemoryZone \<Rightarrow> bool" where
  "zone_chain zone =
     (min_zone zone \<le> redzone zone \<and> redzone zone \<le> top_zone zone \<and>
      top_zone zone \<le> hardmax zone)"

text \<open>The bounds the handlers keep: \<open>redzone\<close> between \<open>min\<close> and \<open>hardmax\<close>, and
  \<open>top\<close> within \<open>hardmax\<close>.\<close>

definition zone_bounds :: "'a::len word MemoryZone \<Rightarrow> bool" where
  "zone_bounds zone =
     (min_zone zone \<le> redzone zone \<and> redzone zone \<le> hardmax zone \<and>
      top_zone zone \<le> hardmax zone)"

text \<open>The alignment unit is a power of two, as \<open>round_up\<close> requires.\<close>

definition unit_ok :: "'a::len word build \<Rightarrow> bool" where
  "unit_ok cfg = (unit cfg \<noteq> 0 \<and> unit cfg AND (unit cfg - 1) = 0)"

text \<open>
  The boundary computed for a fault at \<open>a\<close> stays inside the address space: \<open>a\<close> plus
  one word plus one alignment unit does not pass \<open>2 ^ LENGTH('a)\<close>, so neither the
  addition nor the rounding wraps around. \<open>headroom\<close> asks it of the top of a zone, hence
  of every address the router matches to the zone.
\<close>

definition no_wrap :: "'a::len word build \<Rightarrow> 'a word \<Rightarrow> bool" where
  "no_wrap cfg a = (unat a + LENGTH('a) div 8 + unat (unit cfg) \<le> 2 ^ LENGTH('a))"

definition headroom :: "'a::len word build \<Rightarrow> 'a word MemoryZone \<Rightarrow> bool" where
  "headroom cfg zone = no_wrap cfg (top_zone zone)"

text \<open>
  The protection change refuses (returns a negative value for) every range that runs to
  or past the end of the address space, as the system call does: no such range is mapped.
\<close>

definition mprotect_bounded :: "'a::len word env \<Rightarrow> bool" where
  "mprotect_bounded env =
     (\<forall>addr len. 2 ^ LENGTH('a) \<le> unat addr + unat len \<longrightarrow>
        mprotect env addr len < 0)"

text \<open>What a handler may change in a zone: the \<open>redzone\<close> field only, and only upwards.\<close>

definition redzone_raised :: "'a::len word MemoryZone \<Rightarrow> 'a word MemoryZone \<Rightarrow> bool" where
  "redzone_raised zone zone' =
     (zone' = zone\<lparr>redzone := redzone zone'\<rparr> \<and> redzone zone \<le> redzone zone')"

text \<open>One step of a zone under the operations of the core: the \<open>redzone\<close> field is
  raised and nothing else changes, and the bounds are kept if they held.\<close>

definition zone_step :: "'a::len word MemoryZone \<Rightarrow> 'a word MemoryZone \<Rightarrow> bool" where
  "zone_step zone zone' =
     (redzone_raised zone zone' \<and> (zone_bounds zone \<longrightarrow> zone_bounds zone'))"

subsection \<open>The collapsed location history, as the specification words it\<close>

text \<open>
  "Consecutive duplicate entries collapsed to \<open><label> * <count>\<close>": the maximal runs of
  equal labels, in order, each with its length.
\<close>

fun collapse :: "string list \<Rightarrow> (string \<times> nat) list" where
  "collapse [] = []"
| "collapse (x # xs) =
     (case collapse xs of
        [] \<Rightarrow> [(x, 1)]
      | (y, n) # rest \<Rightarrow> if x = y then (y, n + 1) # rest else (x, 1) # (y, n) # rest)"

definition dump_line :: "string \<times> nat \<Rightarrow> string" where
  "dump_line r =
     (if snd r > 1 then fst r @ '' * '' @ fmt_d (int (snd r)) @ nl else fst r @ nl)"

text \<open>\<open>rs\<close> lists the maximal runs of \<open>ds\<close>: expanding the runs gives \<open>ds\<close> back, no run
  is empty, and neighbouring runs carry different labels.\<close>

definition maximal_runs :: "(string \<times> nat) list \<Rightarrow> string list \<Rightarrow> bool" where
  "maximal_runs rs ds =
     (concat (map (\<lambda>r. replicate (snd r) (fst r)) rs) = ds \<and>
      list_all (\<lambda>r. 1 \<le> snd r) rs \<and>
      distinct_adj (map fst rs))"

subsection \<open>Exit statuses\<close>

text \<open>A result that is a return, or the end of the process with status 1.\<close>

definition exits_only_1 :: "'r result \<Rightarrow> bool" where
  "exits_only_1 r = (case r of Returns v \<Rightarrow> True | Exits status \<Rightarrow> status = 1)"

subsection \<open>Concrete zones and environments\<close>

text \<open>
  A 64-bit build with every capability and 4096-byte alignment unit, an environment in
  which every system call succeeds, and the zone \<open>"detstack"#0\<close> with \<open>min = 0x1000\<close>,
  \<open>top = 0x3000\<close>, \<open>hardmax = 0x9000\<close> and \<open>redzone = 0x2F00\<close>.
\<close>

definition scenario_cfg :: "64 word build" where
  "scenario_cfg =
     \<lparr> conv = Siginfo_t, HAVE_MPROTECT = True, PC_ACCESS = True, MR_LOWLEVEL_DEBUG = False,
       unit = 0x1000, SIGBUS = 7, SIGSEGV = 11, BUS_ADRALN = 1, BUS_ADRERR = 2,
       BUS_OBJERR = 3, SEGV_MAPERR = 1, SEGV_ACCERR = 2,
       fmt_p = (\<lambda>w. ''0x'' @ fmt_x (unat w)) \<rparr>"

definition scenario_env :: "64 word env" where
  "scenario_env =
     \<lparr> memdebug = False, mprotect = (\<lambda>addr len. 0), strerror_errno = ''Cannot allocate memory'',
       install_ok = (\<lambda>sig. True), sigemptyset_ok = True, trace_report_raw = [],
       trace_report = [], prev_locations = [], dumpstack = [] \<rparr>"

definition detstack :: "64 word MemoryZone" where
  "detstack =
     \<lparr> name = ''detstack'', id_zone = 0, min_zone = 0x1000, top_zone = 0x3000,
       hardmax = 0x9000, redzone = 0x2F00, handler = Default_handler \<rparr>"

definition scenario_ctx :: "64 word sigcontext" where
  "scenario_ctx = \<lparr> cr2 = 0x2F50, pc = 0x400123 \<rparr>"

text \<open>A zone adjacent to \<open>detstack\<close>: its guard band starts at the address where the
  one of \<open>detstack\<close> ends. It is bound to the refusal policy.\<close>

definition nondetstack :: "64 word MemoryZone" where
  "nondetstack =
     \<lparr> name = ''nondetstack'', id_zone = 0, min_zone = 0x3000, top_zone = 0x5000,
       hardmax = 0x5000, redzone = 0x3000, handler = Null_handler \<rparr>"

text \<open>A zone whose mapped region ends with the last byte of the address space.\<close>

definition edge_zone :: "64 word MemoryZone" where
  "edge_zone =
     \<lparr> name = ''edge'', id_zone = 1, min_zone = 0xFFFFFFFFFFFF0000,
       top_zone = 0xFFFFFFFFFFFFFFFF, hardmax = 0xFFFFFFFFFFFFFFFF,
       redzone = 0xFFFFFFFFFFFFE000, handler = Default_handler \<rparr>"

text \<open>The environment in which \<open>mprotect\<close> succeeds exactly on the ranges that end
  before the end of the address space.\<close>

definition bounded_env :: "64 word env" where
  "bounded_env =
     scenario_env
       \<lparr>mprotect := (\<lambda>addr len. if 2 ^ 64 \<le> unat addr + unat len then - 1 else 0)\<rparr>"

text \<open>A build with \<open>MR_LOWLEVEL_DEBUG\<close>, and an environment whose dump stack holds seven
  recorded labels.\<close>

definition debug_cfg :: "64 word build" where
  "debug_cfg = scenario_cfg\<lparr>MR_LOWLEVEL_DEBUG := True\<rparr>"

definition history_env :: "64 word env" where
  "history_env =
     scenario_env\<lparr>dumpstack := [''main'', ''main'', ''append'', ''main'', ''len'', ''len'', ''len'']\<rparr>"

text \<open>An environment in which installing the \<open>SIGSEGV\<close> handler fails and \<open>mprotect\<close>
  is refused, and the fault descriptor of a segmentation violation at \<open>0x6000\<close>, an
  address in no zone.\<close>

definition failing_env :: "64 word env" where
  "failing_env =
     scenario_env\<lparr>install_ok := (\<lambda>sig. sig \<noteq> 11), mprotect := (\<lambda>addr len. - 1)\<rparr>"

definition foreign_info :: "64 word siginfo" where
  "foreign_info = \<lparr> si_signo = 11, si_code = 1, si_addr = 0x6000 \<rparr>"

section \<open>Properties\<close>

subsection \<open>Results of the sequencing combinators\<close>

lemmas io_defs =
  ret_def exit_io_def write_err_def bind_io_def seq_io_def when_io_def writes_io_def

lemma snd_print_dump_stack: "snd (print_dump_stack cfg env) = Returns ()"
  by (simp add: print_dump_stack_def io_defs)

lemma snd_seq_io:
  "snd (seq_io m k) = (case snd m of Returns u \<Rightarrow> snd k | Exits s \<Rightarrow> Exits s)"
  by (cases m; cases "snd m"; cases k) (auto simp: io_defs)

lemma snd_bind_io:
  "snd (bind_io m k) = (case snd m of Returns r \<Rightarrow> snd (k r) | Exits s \<Rightarrow> Exits s)"
  by (cases m; cases "snd m") (auto simp: io_defs split: prod.splits)

lemma snd_when_io: "snd (when_io b m) = (if b then snd m else Returns ())"
  by (simp add: io_defs)

lemma snd_basic:
  "snd (ret r) = Returns r"
  "snd (exit_io s) = Exits s"
  "snd (write_err t) = Returns ()"
  "snd (writes_io ts) = Returns ()"
  "snd (perror env t) = Returns ()"
  by (simp_all add: io_defs perror_def)

lemmas snd_io = snd_seq_io snd_bind_io snd_when_io snd_basic snd_print_dump_stack

subsection \<open>The abort path and the default handler\<close>

lemma snd_fatal_abort: "snd (fatal_abort cfg env ctx main_msg dump) = Exits 1"
  by (simp add: fatal_abort_def Let_def snd_io)

lemma snd_default_handler:
  "snd (default_handler cfg env fault_addr zone ctx) =
     (if \<not> full_capability cfg then Returns (False, zone)
      else if round_up (fault_addr + sizeof_Word) (unit cfg) \<le> hardmax zone
      then if mprotect env (redzone zone)
                (round_up (fault_addr + sizeof_Word) (unit cfg) - redzone zone) < 0
           then Exits 1
           else Returns (True, zone\<lparr>redzone := round_up (fault_addr + sizeof_Word) (unit cfg)\<rparr>)
      else Exits 1)"
  by (simp add: default_handler_def Let_def snd_io snd_fatal_abort)

lemma scenario_full: "full_capability scenario_cfg"
  by (simp add: full_capability_def HAVE_SIGINFO_def scenario_cfg_def)

lemma fatal_abort_eq:
  "fatal_abort cfg env ctx main_msg dump =
     ([main_msg, explain_context cfg ctx] @ trace_report_raw env @
      (if dump \<noteq> 0 then fst (print_dump_stack cfg env) else []), Exits 1)"
proof -
  obtain out where p: "print_dump_stack cfg env = (out, Returns ())"
    by (metis snd_print_dump_stack prod.collapse)
  show ?thesis by (simp add: fatal_abort_def io_defs p)
qed

subsection \<open>Formatting small numbers\<close>

lemma show_nat_digit: "n < b \<Longrightarrow> show_nat b n = [digit_char n]"
  by (subst show_nat.simps) simp

lemma fmt_d_0: "fmt_d 0 = ''0''"
  by (simp add: fmt_d_def show_nat_digit digit_char_def)

lemma show_nat_step:
  "2 \<le> b \<Longrightarrow> b \<le> n \<Longrightarrow> show_nat b n = show_nat b (n div b) @ [digit_char (n mod b)]"
  by (subst show_nat.simps) simp

subsection \<open>The router\<close>

lemma snd_zone_loop_Cons:
  "snd (zone_loop cfg env a ctx (z # rest)) =
     (if in_redzone a z
      then (case snd (call_handler (handler z) cfg env a z ctx) of
              Returns r \<Rightarrow> Returns (fst r, snd r # rest)
            | Exits s \<Rightarrow> Exits s)
      else (case snd (zone_loop cfg env a ctx rest) of
              Returns r \<Rightarrow> Returns (fst r, z # snd r)
            | Exits s \<Rightarrow> Exits s))"
  by (simp add: snd_io in_redzone_def split: result.splits prod.splits)

lemma snd_zone_loop_Nil: "snd (zone_loop cfg env a ctx []) = Returns (False, [])"
  by (simp add: snd_io)

declare zone_loop.simps [simp del]

lemma zone_loop_no_match:
  "\<forall>y\<in>set zones. \<not> in_redzone a y \<Longrightarrow>
   snd (zone_loop cfg env a ctx zones) = Returns (False, zones)"
  by (induction zones) (simp_all add: snd_zone_loop_Cons snd_zone_loop_Nil)

lemma zone_loop_first_match:
  "\<forall>y\<in>set pre. \<not> in_redzone a y \<Longrightarrow> in_redzone a z \<Longrightarrow>
   snd (zone_loop cfg env a ctx (pre @ z # post)) =
     (case snd (call_handler (handler z) cfg env a z ctx) of
        Returns r \<Rightarrow> Returns (fst r, pre @ snd r # post)
      | Exits s \<Rightarrow> Exits s)"
  by (induction pre)
     (simp_all add: snd_zone_loop_Cons split: result.splits)

lemma snd_try_munprotect:
  "snd (try_munprotect cfg env a ctx zones) =
     (if full_capability cfg then snd (zone_loop cfg env a ctx zones)
      else Returns (False, zones))"
  by (simp add: try_munprotect_def snd_io)

text \<open>
  \<^bold>\<open>C4.\<close> In the build with \<open>mprotect\<close> and fault addresses, \<open>try_munprotect\<close> walks
  the registry in list order (the order of the \<open>next\<close> links). If no zone has
  \<open>redzone \<le> fault_addr \<le> top\<close> it returns \<open>FALSE\<close> and leaves the registry as it is.
  Otherwise it calls the handler of the first zone whose range contains the address, both
  bounds included, and returns what that handler returns (or the process ends where the
  handler ends it); only that zone is replaced in the registry. In particular, for two
  adjacent zones that share a boundary address, a fault exactly on the boundary goes to
  the zone registered first.
\<close>

theorem try_munprotect_first_match:
  assumes "full_capability cfg"
  shows
    "((\<forall>y\<in>set zones. \<not> in_redzone a y) \<longrightarrow>
        snd (try_munprotect cfg env a ctx zones) = Returns (False, zones)) \<and>
     (\<forall>pre z post.
        zones = pre @ z # post \<and> (\<forall>y\<in>set pre. \<not> in_redzone a y) \<and>
        redzone z \<le> a \<and> a \<le> top_zone z \<longrightarrow>
        snd (try_munprotect cfg env a ctx zones) =
          (case snd (call_handler (handler z) cfg env a z ctx) of
             Returns r \<Rightarrow> Returns (fst r, pre @ snd r # post)
           | Exits s \<Rightarrow> Exits s)) \<and>
     (\<forall>z1 z2 rest.
        zones = z1 # z2 # rest \<and> redzone z1 \<le> a \<and> a = top_zone z1 \<and>
        a = redzone z2 \<and> a \<le> top_zone z2 \<longrightarrow>
        snd (try_munprotect cfg env a ctx zones) =
          (case snd (call_handler (handler z1) cfg env a z1 ctx) of
             Returns r \<Rightarrow> Returns (fst r, snd r # z2 # rest)
           | Exits s \<Rightarrow> Exits s))"
proof (intro conjI allI impI)
  assume "\<forall>y\<in>set zones. \<not> in_redzone a y"
  then show "snd (try_munprotect cfg env a ctx zones) = Returns (False, zones)"
    using assms by (simp add: snd_try_munprotect zone_loop_no_match)
next
  fix pre z post
  assume h: "zones = pre @ z # post \<and> (\<forall>y\<in>set pre. \<not> in_redzone a y) \<and>
    redzone z \<le> a \<and> a \<le> top_zone z"
  then have "in_redzone a z" by (auto simp: in_redzone_def)
  with h assms show "snd (try_munprotect cfg env a ctx zones) =
      (case snd (call_handler (handler z) cfg env a z ctx) of
         Returns r \<Rightarrow> Returns (fst r, pre @ snd r # post)
       | Exits s \<Rightarrow> Exits s)"
    by (simp add: snd_try_munprotect zone_loop_first_match)
next
  fix z1 z2 rest
  assume h: "zones = z1 # z2 # rest \<and> redzone z1 \<le> a \<and> a = top_zone z1 \<and>
        a = redzone z2 \<and> a \<le> top_zone z2"
  then have m: "in_redzone a z1" by (auto simp: in_redzone_def)
  have "snd (zone_loop cfg env a ctx (z1 # z2 # rest)) =
      (case snd (call_handler (handler z1) cfg env a z1 ctx) of
         Returns r \<Rightarrow> Returns (fst r, snd r # z2 # rest)
       | Exits s \<Rightarrow> Exits s)"
    using m by (simp add: snd_zone_loop_Cons)
  with h assms show "snd (try_munprotect cfg env a ctx zones) =
          (case snd (call_handler (handler z1) cfg env a z1 ctx) of
             Returns r \<Rightarrow> Returns (fst r, snd r # z2 # rest)
           | Exits s \<Rightarrow> Exits s)"
    by (simp add: snd_try_munprotect)
qed

lemma scenario_grow_3000:
  "snd (default_handler scenario_cfg scenario_env 0x3000 detstack scenario_ctx) =
     Returns (True, detstack\<lparr>redzone := 0x4000\<rparr>)"
  by (simp add: snd_default_handler scenario_full)
     (simp add: scenario_cfg_def scenario_env_def detstack_def round_up_def sizeof_Word_def)

theorem try_munprotect_first_match_witness:
  "full_capability scenario_cfg \<and>
   redzone detstack \<le> 0x3000 \<and> 0x3000 = top_zone detstack \<and>
   0x3000 = redzone nondetstack \<and> 0x3000 \<le> top_zone nondetstack \<and>
   snd (try_munprotect scenario_cfg scenario_env 0x3000 scenario_ctx [detstack, nondetstack]) =
     Returns (True, [detstack\<lparr>redzone := 0x4000\<rparr>, nondetstack]) \<and>
   snd (try_munprotect scenario_cfg scenario_env 0x3000 scenario_ctx [nondetstack, detstack]) =
     Returns (False, [nondetstack, detstack]) \<and>
   snd (try_munprotect scenario_cfg scenario_env 0x6000 scenario_ctx [detstack, nondetstack]) =
     Returns (False, [detstack, nondetstack])"
proof -
  have b: "redzone detstack \<le> 0x3000" "0x3000 = top_zone detstack"
    "0x3000 = redzone nondetstack" "0x3000 \<le> top_zone nondetstack"
    by (simp_all add: detstack_def nondetstack_def)
  have n: "\<forall>y\<in>set [detstack, nondetstack]. \<not> in_redzone 0x6000 y"
    by (simp add: in_redzone_def detstack_def nondetstack_def)
  have h: "handler detstack = Default_handler" "handler nondetstack = Null_handler"
    by (simp_all add: detstack_def nondetstack_def)
  note t = try_munprotect_first_match [OF scenario_full]
  have 1: "snd (try_munprotect scenario_cfg scenario_env 0x3000 scenario_ctx
             [detstack, nondetstack]) = Returns (True, [detstack\<lparr>redzone := 0x4000\<rparr>, nondetstack])"
    using t [of "[detstack, nondetstack]" "0x3000" scenario_env scenario_ctx,
        THEN conjunct2, THEN conjunct2, THEN spec, THEN spec, THEN spec,
        of detstack nondetstack "[]"] b
    by (simp add: call_handler_def h scenario_grow_3000)
  have 2: "snd (try_munprotect scenario_cfg scenario_env 0x3000 scenario_ctx
             [nondetstack, detstack]) = Returns (False, [nondetstack, detstack])"
    using t [of "[nondetstack, detstack]" "0x3000" scenario_env scenario_ctx,
        THEN conjunct2, THEN conjunct1, THEN spec, THEN spec, THEN spec,
        of "[]" nondetstack "[detstack]"] b
    by (simp add: call_handler_def h null_handler_def snd_io)
  have 3: "snd (try_munprotect scenario_cfg scenario_env 0x6000 scenario_ctx
             [detstack, nondetstack]) = Returns (False, [detstack, nondetstack])"
    using t [of "[detstack, nondetstack]" "0x6000" scenario_env scenario_ctx,
        THEN conjunct1] n by simp
  from scenario_full b 1 2 3 show ?thesis by simp
qed


subsection \<open>Growth by the default handler\<close>

lemma scenario_pc_line:
  "explain_context scenario_cfg scenario_ctx = ''PC at signal: 4194595 (400123)'' @ nl"
  by (simp add: explain_context_def scenario_cfg_def scenario_ctx_def fmt_d_def fmt_x_def
      show_nat_step show_nat_digit digit_char_def)

lemma scenario_hint:
  "fst (print_dump_stack scenario_cfg env) =
     [''You can get a stack dump by using '' @ [CHR 0x60] @ ''--low-level-debug'' @ [CHR 0x27] @ nl]"
  by (simp add: print_dump_stack_def scenario_cfg_def io_defs)

text \<open>
  \<^bold>\<open>C2.\<close> In the build with \<open>mprotect\<close> and fault addresses: for a fault address \<open>a\<close>
  with \<open>redzone \<le> a \<le> top\<close> whose boundary \<open>round_up(a + sizeof(Word), unit)\<close>, as the
  code computes it, is at most \<open>hardmax\<close>, and when \<open>mprotect\<close> succeeds,
  \<open>default_handler\<close> returns \<open>TRUE\<close> and sets \<open>redzone\<close> to exactly that boundary; no
  other field changes, so \<open>top\<close> is what it was. The instance that follows is the zone
  \<open>"detstack"#0\<close> with a fault at \<open>0x2F50\<close>: the new \<open>redzone\<close> is \<open>0x3000\<close>.
\<close>

theorem default_handler_grows:
  assumes "full_capability cfg"
    and "redzone z \<le> a" and "a \<le> top_zone z"
    and "round_up (a + sizeof_Word) (unit cfg) \<le> hardmax z"
    and "0 \<le> mprotect env (redzone z) (round_up (a + sizeof_Word) (unit cfg) - redzone z)"
  shows "snd (default_handler cfg env a z ctx) =
           Returns (True, z\<lparr>redzone := round_up (a + sizeof_Word) (unit cfg)\<rparr>) \<and>
         redzone (z\<lparr>redzone := round_up (a + sizeof_Word) (unit cfg)\<rparr>) =
           round_up (a + sizeof_Word) (unit cfg) \<and>
         top_zone (z\<lparr>redzone := round_up (a + sizeof_Word) (unit cfg)\<rparr>) = top_zone z"
  using assms by (simp add: snd_default_handler)

theorem default_handler_grows_witness:
  "full_capability scenario_cfg \<and>
   redzone detstack \<le> 0x2F50 \<and> 0x2F50 \<le> top_zone detstack \<and>
   round_up (0x2F50 + sizeof_Word) (unit scenario_cfg) = 0x3000 \<and>
   0x3000 \<le> hardmax detstack \<and>
   0 \<le> mprotect scenario_env (redzone detstack) (0x3000 - redzone detstack) \<and>
   snd (default_handler scenario_cfg scenario_env 0x2F50 detstack scenario_ctx) =
     Returns (True, detstack\<lparr>redzone := 0x3000\<rparr>) \<and>
   top_zone (detstack\<lparr>redzone := 0x3000\<rparr>) = 0x3000"
proof -
  have r: "round_up (0x2F50 + sizeof_Word) (unit scenario_cfg) = (0x3000 :: 64 word)"
    by (simp add: round_up_def sizeof_Word_def scenario_cfg_def)
  have h: "redzone detstack \<le> 0x2F50" "0x2F50 \<le> top_zone detstack"
    "0x3000 \<le> hardmax detstack" "top_zone detstack = 0x3000"
    "0 \<le> mprotect scenario_env (redzone detstack) (0x3000 - redzone detstack)"
    by (simp_all add: detstack_def scenario_env_def)
  from default_handler_grows [of scenario_cfg detstack "0x2F50" scenario_env scenario_ctx]
    scenario_full r h
  show ?thesis by simp
qed

text \<open>
  \<^bold>\<open>C3.\<close> The comparison with \<open>hardmax\<close> is inclusive. If the boundary equals
  \<open>hardmax\<close> the handler takes the growth branch: with a successful \<open>mprotect\<close> it
  returns \<open>TRUE\<close> and \<open>redzone\<close> becomes \<open>hardmax\<close>. If the boundary is strictly above
  \<open>hardmax\<close> the process exits through \<open>fatal_abort\<close>: provided the texts formatted
  with \<open>sprintf\<close> fit their buffers (the message in \<open>char buf[2560]\<close>, the context line
  in \<open>char buf[100]\<close>, the lines of the dump in \<open>char buf[2560]\<close>), the error stream
  receives (after the \<open>memdebug\<close> line, if enabled) the message
  \<open>"\nMercury runtime: memory zone <name>#<id> overflowed\n"\<close>, the context line, the raw
  trace report and the stack dump, and the exit status is 1.
\<close>

theorem hardmax_inclusive:
  assumes "full_capability cfg"
  shows
    "(round_up (a + sizeof_Word) (unit cfg) = hardmax z \<and>
      0 \<le> mprotect env (redzone z) (hardmax z - redzone z) \<longrightarrow>
        snd (default_handler cfg env a z ctx) = Returns (True, z\<lparr>redzone := hardmax z\<rparr>)) \<and>
     (hardmax z < round_up (a + sizeof_Word) (unit cfg) \<and>
      fits_buf 2560 (nl @ ''Mercury runtime: memory zone '' @ name z @ ''#'' @
                     fmt_d (id_zone z) @ '' overflowed'' @ nl) \<and>
      fits_buf 100 (explain_context cfg ctx) \<and> dump_fits cfg env \<longrightarrow>
        default_handler cfg env a z ctx =
          ((if memdebug env
            then [''can'' @ [CHR 0x27] @ ''t unprotect last page of '' @ name z @ ''#'' @
                  fmt_d (id_zone z) @ nl]
            else []) @
           [nl @ ''Mercury runtime: memory zone '' @ name z @ ''#'' @ fmt_d (id_zone z) @
            '' overflowed'' @ nl,
            explain_context cfg ctx] @
           trace_report_raw env @ fst (print_dump_stack cfg env),
           Exits 1))"
proof (intro conjI impI)
  assume "round_up (a + sizeof_Word) (unit cfg) = hardmax z \<and>
      0 \<le> mprotect env (redzone z) (hardmax z - redzone z)"
  with assms show "snd (default_handler cfg env a z ctx) = Returns (True, z\<lparr>redzone := hardmax z\<rparr>)"
    by (simp add: snd_default_handler)
next
  assume "hardmax z < round_up (a + sizeof_Word) (unit cfg) \<and>
      fits_buf 2560 (nl @ ''Mercury runtime: memory zone '' @ name z @ ''#'' @
                     fmt_d (id_zone z) @ '' overflowed'' @ nl) \<and>
      fits_buf 100 (explain_context cfg ctx) \<and> dump_fits cfg env"
  then have "hardmax z < round_up (a + sizeof_Word) (unit cfg)" by (rule conjunct1)
  then have "\<not> round_up (a + sizeof_Word) (unit cfg) \<le> hardmax z" by simp
  with assms show "default_handler cfg env a z ctx =
          ((if memdebug env
            then [''can'' @ [CHR 0x27] @ ''t unprotect last page of '' @ name z @ ''#'' @
                  fmt_d (id_zone z) @ nl]
            else []) @
           [nl @ ''Mercury runtime: memory zone '' @ name z @ ''#'' @ fmt_d (id_zone z) @
            '' overflowed'' @ nl,
            explain_context cfg ctx] @
           trace_report_raw env @ fst (print_dump_stack cfg env),
           Exits 1)"
    by (simp add: default_handler_def Let_def fatal_abort_eq zone_label_def io_defs)
qed

theorem hardmax_inclusive_witness:
  "full_capability scenario_cfg \<and>
   round_up (0x8FF0 + sizeof_Word) (unit scenario_cfg) = hardmax detstack \<and>
   0 \<le> mprotect scenario_env (redzone detstack) (hardmax detstack - redzone detstack) \<and>
   snd (default_handler scenario_cfg scenario_env 0x8FF0 detstack scenario_ctx) =
     Returns (True, detstack\<lparr>redzone := 0x9000\<rparr>) \<and>
   hardmax detstack < round_up (0x8FF9 + sizeof_Word) (unit scenario_cfg) \<and>
   fits_buf 2560 (nl @ ''Mercury runtime: memory zone detstack#0 overflowed'' @ nl) \<and>
   fits_buf 100 (''PC at signal: 4194595 (400123)'' @ nl) \<and>
   dump_fits scenario_cfg scenario_env \<and>
   default_handler scenario_cfg scenario_env 0x8FF9 detstack scenario_ctx =
     ([nl @ ''Mercury runtime: memory zone detstack#0 overflowed'' @ nl,
       ''PC at signal: 4194595 (400123)'' @ nl,
       ''You can get a stack dump by using '' @ [CHR 0x60] @ ''--low-level-debug'' @
         [CHR 0x27] @ nl],
      Exits 1)"
proof -
  have r: "round_up (0x8FF0 + sizeof_Word) (unit scenario_cfg) = hardmax detstack"
    "hardmax detstack < round_up (0x8FF9 + sizeof_Word) (unit scenario_cfg)"
    by (simp_all add: round_up_def sizeof_Word_def scenario_cfg_def detstack_def)
  have h: "0 \<le> mprotect scenario_env (redzone detstack) (hardmax detstack - redzone detstack)"
    "hardmax detstack = 0x9000" "name detstack = ''detstack''" "id_zone detstack = 0"
    "\<not> memdebug scenario_env" "trace_report_raw scenario_env = []"
    by (simp_all add: detstack_def scenario_env_def)
  have f: "fits_buf 2560 (nl @ ''Mercury runtime: memory zone detstack#0 overflowed'' @ nl)"
    "fits_buf 100 (''PC at signal: 4194595 (400123)'' @ nl)"
    "dump_fits scenario_cfg scenario_env"
    by (simp_all add: fits_buf_def nl_def dump_fits_def scenario_cfg_def)
  note t = hardmax_inclusive [OF scenario_full, of _ detstack scenario_env scenario_ctx]
  from t [of "0x8FF0", THEN conjunct1] t [of "0x8FF9", THEN conjunct2] scenario_full r h f
  show ?thesis by (simp add: scenario_pc_line scenario_hint fmt_d_0)
qed

subsection \<open>The refusal policy\<close>

text \<open>
  \<^bold>\<open>C9.\<close> \<open>null_handler\<close> returns \<open>FALSE\<close> for every fault address, zone and context,
  writes nothing and leaves the zone as it is. Hence a fault routed to a zone bound to it
  (the first zone of the registry whose range contains the address) is reported unhandled
  by \<open>try_munprotect\<close>, wherever in the range the address lies, in every build.
\<close>

theorem null_handler_refuses:
  "null_handler cfg env a z ctx = ([], Returns (False, z)) \<and>
   (\<forall>pre post.
      (\<forall>y\<in>set pre. \<not> in_redzone a y) \<and> redzone z \<le> a \<and> a \<le> top_zone z \<and>
      handler z = Null_handler \<longrightarrow>
      snd (try_munprotect cfg env a ctx (pre @ z # post)) = Returns (False, pre @ z # post))"
proof (intro conjI allI impI)
  show "null_handler cfg env a z ctx = ([], Returns (False, z))"
    by (simp add: null_handler_def ret_def)
next
  fix pre post
  assume h: "(\<forall>y\<in>set pre. \<not> in_redzone a y) \<and> redzone z \<le> a \<and> a \<le> top_zone z \<and>
      handler z = Null_handler"
  then have m: "in_redzone a z" by (simp add: in_redzone_def)
  from h have "snd (call_handler (handler z) cfg env a z ctx) = Returns (False, z)"
    by (simp add: call_handler_def null_handler_def snd_io)
  with h m show "snd (try_munprotect cfg env a ctx (pre @ z # post)) =
      Returns (False, pre @ z # post)"
    by (simp add: snd_try_munprotect zone_loop_first_match)
qed

theorem null_handler_refuses_witness:
  "null_handler scenario_cfg scenario_env 0x4000 nondetstack scenario_ctx =
     ([], Returns (False, nondetstack)) \<and>
   \<not> in_redzone 0x4000 detstack \<and>
   redzone nondetstack \<le> 0x4000 \<and> 0x4000 \<le> top_zone nondetstack \<and>
   handler nondetstack = Null_handler \<and>
   snd (try_munprotect scenario_cfg scenario_env 0x4000 scenario_ctx [detstack, nondetstack]) =
     Returns (False, [detstack, nondetstack])"
proof -
  have h: "\<not> in_redzone 0x4000 detstack" "redzone nondetstack \<le> 0x4000"
    "0x4000 \<le> top_zone nondetstack" "handler nondetstack = Null_handler"
    by (simp_all add: in_redzone_def detstack_def nondetstack_def)
  note t = null_handler_refuses [of scenario_cfg scenario_env "0x4000" nondetstack scenario_ctx]
  from t [THEN conjunct1]
    t [THEN conjunct2, THEN spec, THEN spec, of "[detstack]" "[]"] h
  show ?thesis by simp
qed

subsection \<open>The default handler never refuses\<close>

text \<open>
  \<^bold>\<open>C10.\<close> In the build with \<open>mprotect\<close> and fault addresses, \<open>fatal_abort\<close> always ends
  the process, and \<open>default_handler\<close> never returns \<open>FALSE\<close>: it returns \<open>TRUE\<close> or the
  process exits, so the statement \<open>return FALSE\<close> after the call of \<open>fatal_abort\<close> is
  never reached.
\<close>

theorem default_handler_never_false:
  "full_capability cfg \<Longrightarrow>
   snd (fatal_abort cfg env ctx main_msg dump) = Exits 1 \<and>
   snd (default_handler cfg env fault_addr zone ctx) \<noteq> Returns (False, zone')"
  by (simp add: snd_default_handler snd_fatal_abort)

theorem default_handler_never_false_witness:
  "full_capability scenario_cfg \<and>
   snd (fatal_abort scenario_cfg scenario_env scenario_ctx ''overflowed'' 1) = Exits 1 \<and>
   snd (default_handler scenario_cfg scenario_env 0x2F50 detstack scenario_ctx)
     \<noteq> Returns (False, detstack)"
  using default_handler_never_false
    [of scenario_cfg scenario_env scenario_ctx "''overflowed''" 1 "0x2F50" detstack detstack]
  by (simp add: scenario_full)

subsection \<open>Rounding up without wrap-around\<close>

lemma unat_sizeof_Word: "unat (sizeof_Word :: 'a::len word) = LENGTH('a) div 8"
proof -
  have "LENGTH('a) div 8 < 2 ^ LENGTH('a)"
    by (rule le_less_trans [OF div_le_dividend]) simp
  then show ?thesis by (simp add: sizeof_Word_def unat_of_nat)
qed

lemma round_up_nat_bounds:
  fixes n m :: nat
  assumes "0 < m"
  shows "n \<le> ((n + m - 1) div m) * m" and "((n + m - 1) div m) * m < n + m"
proof -
  have eq: "(n + m - 1) div m * m + (n + m - 1) mod m = n + m - 1" by simp
  have lt: "(n + m - 1) mod m < m" using assms by simp
  from eq lt assms show "n \<le> ((n + m - 1) div m) * m" by linarith
  from eq assms show "((n + m - 1) div m) * m < n + m" by linarith
qed

lemma unat_round_up:
  fixes x u :: "'a::len word"
  assumes "u \<noteq> 0" and "unat x + unat u \<le> 2 ^ LENGTH('a)"
  shows "unat (round_up x u) = ((unat x + unat u - 1) div unat u) * unat u"
proof -
  have m: "0 < unat u" using assms(1) by (simp add: unat_gt_0)
  have "((unat x + unat u - 1) div unat u) * unat u < unat x + unat u"
    by (rule round_up_nat_bounds(2) [OF m])
  with assms(2) have "((unat x + unat u - 1) div unat u) * unat u < 2 ^ LENGTH('a)" by linarith
  then show ?thesis by (simp only: round_up_def unat_of_nat mod_less)
qed

lemma round_up_ge:
  fixes x u :: "'a::len word"
  assumes "u \<noteq> 0" and "unat x + unat u \<le> 2 ^ LENGTH('a)"
  shows "x \<le> round_up x u"
proof -
  have m: "0 < unat u" using assms(1) by (simp add: unat_gt_0)
  show ?thesis
    unfolding word_le_nat_alt unat_round_up [OF assms]
    by (rule round_up_nat_bounds(1) [OF m])
qed

lemma new_zone_ge:
  fixes a :: "'a::len word"
  assumes "unit_ok cfg" and "no_wrap cfg a"
  shows "a \<le> round_up (a + sizeof_Word) (unit cfg)"
proof -
  have u: "unit cfg \<noteq> 0" using assms(1) by (simp add: unit_ok_def)
  then have m: "0 < unat (unit cfg)" by (simp add: unat_gt_0)
  have nw: "unat a + LENGTH('a) div 8 + unat (unit cfg) \<le> 2 ^ LENGTH('a)"
    using assms(2) by (simp add: no_wrap_def)
  with m have "unat a + unat (sizeof_Word :: 'a word) < 2 ^ LENGTH('a)"
    by (simp add: unat_sizeof_Word)
  then have s: "unat (a + sizeof_Word) = unat a + LENGTH('a) div 8"
    by (simp add: unat_add_lem [THEN iffD1] unat_sizeof_Word)
  have "a \<le> a + sizeof_Word" unfolding word_le_nat_alt s by simp
  also have "a + sizeof_Word \<le> round_up (a + sizeof_Word) (unit cfg)"
    by (rule round_up_ge [OF u]) (simp add: s nw)
  finally show ?thesis .
qed


subsection \<open>Results of the signal handlers\<close>

lemma snd_complex_sighandler:
  "snd (complex_sighandler cfg env sig sigcontext zones) =
     (if sig = SIGSEGV cfg
      then (case snd (try_munprotect cfg env (cr2 sigcontext) sigcontext zones) of
              Returns r \<Rightarrow> if fst r then Returns (snd r) else Exits 1
            | Exits s \<Rightarrow> Exits s)
      else Exits 1)"
  by (simp add: complex_sighandler_def Let_def snd_io split: result.splits prod.splits)

lemma snd_complex_bushandler: "snd (complex_bushandler cfg env sig info ctx) = Exits 1"
  by (simp add: complex_bushandler_def snd_io)

lemma snd_explain_segv: "snd (explain_segv cfg info ctx) = Returns ()"
  by (simp add: explain_segv_def snd_io)

lemma snd_complex_segvhandler:
  "snd (complex_segvhandler cfg env sig info ctx zones) =
     (if sig \<noteq> SIGSEGV cfg \<or> info = None \<or> si_signo (the info) \<noteq> SIGSEGV cfg then Exits 1
      else (case snd (try_munprotect cfg env (si_addr (the info)) ctx zones) of
              Returns r \<Rightarrow> if fst r then Returns (snd r) else Exits 1
            | Exits s \<Rightarrow> Exits s))"
  by (simp add: complex_segvhandler_def snd_io snd_explain_segv split: result.splits prod.splits)

lemma snd_simple_sighandler: "snd (simple_sighandler cfg env sig) = Exits 1"
  by (simp add: simple_sighandler_def snd_io)

lemma snd_deliver:
  "snd (deliver h cfg env sig info ctx zones) =
     (case h of
        Complex_sighandler \<Rightarrow> snd (complex_sighandler cfg env sig ctx zones)
      | Complex_bushandler \<Rightarrow> Exits 1
      | Complex_segvhandler \<Rightarrow> snd (complex_segvhandler cfg env sig info ctx zones)
      | Simple_sighandler \<Rightarrow> Exits 1)"
  by (simp add: deliver_def snd_io snd_complex_bushandler snd_simple_sighandler
      split: sighandler.splits)

subsection \<open>What the operations do to a zone\<close>

lemma no_wrap_le: "a \<le> b \<Longrightarrow> no_wrap cfg b \<Longrightarrow> no_wrap cfg a"
  by (simp add: no_wrap_def word_le_nat_alt)

lemma zone_step_refl: "zone_step z z"
  by (simp add: zone_step_def redzone_raised_def)

lemma zone_step_trans: "zone_step x y \<Longrightarrow> zone_step y z \<Longrightarrow> zone_step x z"
  by (cases x; cases y; cases z) (auto simp: zone_step_def redzone_raised_def)

lemma zone_step_headroom: "zone_step z z' \<Longrightarrow> headroom cfg z' = headroom cfg z"
  by (cases z; cases z') (auto simp: zone_step_def redzone_raised_def headroom_def)

lemma default_handler_step:
  assumes "unit_ok cfg" and "no_wrap cfg a" and "redzone z \<le> a"
    and "snd (default_handler cfg env a z ctx) = Returns (b, z')"
  shows "zone_step z z'"
proof (cases "full_capability cfg")
  case False
  with assms(4) have "z' = z" by (simp add: snd_default_handler)
  then show ?thesis by (simp add: zone_step_refl)
next
  case True
  let ?new = "round_up (a + sizeof_Word) (unit cfg)"
  from True assms(4) have le: "?new \<le> hardmax z" and z': "z' = z\<lparr>redzone := ?new\<rparr>"
    by (auto simp: snd_default_handler split: if_splits)
  have "a \<le> ?new" by (rule new_zone_ge [OF assms(1,2)])
  with assms(3) have "redzone z \<le> ?new" by simp
  with le z' show ?thesis
    by (auto simp: zone_step_def redzone_raised_def zone_bounds_def)
qed

lemma call_handler_step:
  assumes "unit_ok cfg" and "no_wrap cfg a" and "redzone z \<le> a"
    and "snd (call_handler h cfg env a z ctx) = Returns (b, z')"
  shows "zone_step z z'"
proof (cases h)
  case Default_handler
  with assms show ?thesis by (simp add: call_handler_def default_handler_step)
next
  case Null_handler
  with assms(4) have "z' = z" by (simp add: call_handler_def null_handler_def snd_io)
  then show ?thesis by (simp add: zone_step_refl)
qed

lemma zone_loop_step:
  "unit_ok cfg \<Longrightarrow> list_all (headroom cfg) zones \<Longrightarrow>
   snd (zone_loop cfg env a ctx zones) = Returns (b, zones') \<Longrightarrow>
   list_all2 zone_step zones zones'"
proof (induction zones arbitrary: b zones')
  case Nil
  then show ?case by (simp add: snd_zone_loop_Nil)
next
  case (Cons z rest)
  show ?case
  proof (cases "in_redzone a z")
    case True
    with Cons.prems(3) obtain z' where
      c: "snd (call_handler (handler z) cfg env a z ctx) = Returns (b, z')" and
      zs: "zones' = z' # rest"
      by (auto simp: snd_zone_loop_Cons split: result.splits)
    from True Cons.prems(2) have "no_wrap cfg a" and "redzone z \<le> a"
      by (auto simp: in_redzone_def headroom_def intro: no_wrap_le)
    with c Cons.prems(1) have "zone_step z z'" by (auto intro: call_handler_step)
    with zs show ?thesis by (simp add: list_all2_refl zone_step_refl)
  next
    case False
    with Cons.prems(3) obtain rest' where
      c: "snd (zone_loop cfg env a ctx rest) = Returns (b, rest')" and zs: "zones' = z # rest'"
      by (auto simp: snd_zone_loop_Cons split: result.splits)
    from Cons.IH [OF Cons.prems(1) _ c] Cons.prems(2) have "list_all2 zone_step rest rest'"
      by simp
    with zs show ?thesis by (simp add: zone_step_refl)
  qed
qed

lemma try_munprotect_step:
  assumes "unit_ok cfg" and "list_all (headroom cfg) zones"
    and "snd (try_munprotect cfg env a ctx zones) = Returns (b, zones')"
  shows "list_all2 zone_step zones zones'"
proof (cases "full_capability cfg")
  case True
  with assms show ?thesis by (simp add: snd_try_munprotect zone_loop_step)
next
  case False
  with assms(3) have "zones' = zones" by (simp add: snd_try_munprotect)
  then show ?thesis by (simp add: list_all2_refl zone_step_refl)
qed

lemma complex_sighandler_returns:
  assumes "snd (complex_sighandler cfg env sig sigcontext zones) = Returns zones'"
  shows "snd (try_munprotect cfg env (cr2 sigcontext) sigcontext zones) = Returns (True, zones')"
proof (cases "snd (try_munprotect cfg env (cr2 sigcontext) sigcontext zones)")
  case (Returns r)
  with assms show ?thesis
    by (simp add: snd_complex_sighandler prod_eq_iff split: if_splits)
next
  case (Exits s)
  with assms show ?thesis by (simp add: snd_complex_sighandler split: if_splits)
qed

lemma complex_segvhandler_returns:
  assumes "snd (complex_segvhandler cfg env sig info ctx zones) = Returns zones'"
  shows "snd (try_munprotect cfg env (si_addr (the info)) ctx zones) = Returns (True, zones')"
proof (cases "snd (try_munprotect cfg env (si_addr (the info)) ctx zones)")
  case (Returns r)
  with assms show ?thesis
    by (simp add: snd_complex_segvhandler prod_eq_iff split: if_splits)
next
  case (Exits s)
  with assms show ?thesis by (simp add: snd_complex_segvhandler split: if_splits)
qed

lemma deliver_step:
  assumes "unit_ok cfg" and "list_all (headroom cfg) zones"
    and "snd (deliver h cfg env sig info ctx zones) = Returns zones'"
  shows "list_all2 zone_step zones zones'"
proof (cases h)
  case Complex_sighandler
  with assms(3) have "snd (complex_sighandler cfg env sig ctx zones) = Returns zones'"
    by (simp add: snd_deliver)
  then have "snd (try_munprotect cfg env (cr2 ctx) ctx zones) = Returns (True, zones')"
    by (rule complex_sighandler_returns)
  then show ?thesis by (rule try_munprotect_step [OF assms(1,2)])
next
  case Complex_bushandler
  with assms(3) show ?thesis by (simp add: snd_deliver)
next
  case Complex_segvhandler
  with assms(3) have "snd (complex_segvhandler cfg env sig info ctx zones) = Returns zones'"
    by (simp add: snd_deliver)
  then have "snd (try_munprotect cfg env (si_addr (the info)) ctx zones) = Returns (True, zones')"
    by (rule complex_segvhandler_returns)
  then show ?thesis by (rule try_munprotect_step [OF assms(1,2)])
next
  case Simple_sighandler
  with assms(3) show ?thesis by (simp add: snd_deliver)
qed

lemma exec_op_step:
  assumes "unit_ok cfg" and "list_all (headroom cfg) zones"
    and "snd (exec_op cfg env op zones) = Returns zones'"
  shows "list_all2 zone_step zones zones'"
proof (cases op)
  case Setup_signal
  with assms(3) have "zones' = zones"
    by (auto simp: exec_op_def snd_io split: result.splits)
  then show ?thesis by (simp add: list_all2_refl zone_step_refl)
next
  case (Route a ctx)
  show ?thesis
  proof (cases "snd (try_munprotect cfg env a ctx zones)")
    case (Returns r)
    with Route assms(3) have "zones' = snd r"
      by (simp add: exec_op_def snd_io split: prod.splits)
    with Returns have "snd (try_munprotect cfg env a ctx zones) = Returns (fst r, zones')"
      by simp
    then show ?thesis by (rule try_munprotect_step [OF assms(1,2)])
  next
    case (Exits status)
    with Route assms(3) show ?thesis by (simp add: exec_op_def snd_io)
  qed
next
  case (Deliver h sig info ctx)
  with assms(3) show ?thesis by (simp add: exec_op_def deliver_step [OF assms(1,2)])
qed

lemma headroom_kept:
  "list_all2 zone_step zones zones' \<Longrightarrow> list_all (headroom cfg) zones \<Longrightarrow>
   list_all (headroom cfg) zones'"
  by (induction rule: list_all2_induct) (simp_all add: zone_step_headroom)

lemma run_step:
  "unit_ok cfg \<Longrightarrow> list_all (headroom cfg) zones \<Longrightarrow>
   snd (run cfg steps zones) = Returns zones' \<Longrightarrow> list_all2 zone_step zones zones'"
proof (induction steps arbitrary: zones)
  case Nil
  then show ?case by (simp add: snd_io list_all2_refl zone_step_refl)
next
  case (Cons step steps)
  from Cons.prems(3) obtain mid where
    e: "snd (exec_op cfg (fst step) (snd step) zones) = Returns mid" and
    r: "snd (run cfg steps mid) = Returns zones'"
    by (auto simp: snd_io split: result.splits)
  have 1: "list_all2 zone_step zones mid" by (rule exec_op_step [OF Cons.prems(1,2) e])
  then have "list_all (headroom cfg) mid" using Cons.prems(2) by (rule headroom_kept)
  then have "list_all2 zone_step mid zones'" using r Cons.prems(1) by (auto intro: Cons.IH)
  with 1 show ?case by (rule list_all2_trans [rotated]) (rule zone_step_trans)
qed

subsection \<open>The bounds of a zone\<close>

lemma zone_chain_bounds: "zone_chain z \<Longrightarrow> zone_bounds z"
  by (auto simp: zone_chain_def zone_bounds_def)

lemma list_all2_zone_step_bounds:
  "list_all2 zone_step zones zones' \<Longrightarrow> list_all zone_bounds zones \<Longrightarrow>
   list_all zone_bounds zones'"
  by (induction rule: list_all2_induct) (simp_all add: zone_step_def)

lemma scenario_unit_ok: "unit_ok scenario_cfg"
  by (simp add: unit_ok_def scenario_cfg_def)

lemma scenario_headroom: "headroom scenario_cfg detstack"
  by (simp add: headroom_def no_wrap_def scenario_cfg_def detstack_def)

lemma scenario_chain: "zone_chain detstack"
  by (simp add: zone_chain_def detstack_def)

lemma scenario_setup:
  "snd (setup_signal scenario_cfg scenario_env) =
     Returns [(7, Complex_bushandler), (11, Complex_segvhandler)]"
  by (simp add: setup_signal_def scenario_cfg_def scenario_env_def snd_io)

lemma scenario_route_3000:
  "snd (try_munprotect scenario_cfg scenario_env 0x3000 scenario_ctx [detstack]) =
     Returns (True, [detstack\<lparr>redzone := 0x4000\<rparr>])"
proof -
  have "in_redzone 0x3000 detstack" by (simp add: in_redzone_def detstack_def)
  moreover have "handler detstack = Default_handler" by (simp add: detstack_def)
  ultimately show ?thesis
    by (simp add: snd_try_munprotect scenario_full snd_zone_loop_Cons call_handler_def
        scenario_grow_3000)
qed

lemma scenario_run:
  "snd (run scenario_cfg
          [(scenario_env, Setup_signal), (scenario_env, Route 0x3000 scenario_ctx)] [detstack]) =
     Returns [detstack\<lparr>redzone := 0x4000\<rparr>]"
  by (simp add: snd_io exec_op_def scenario_setup scenario_route_3000)

lemma edge_zone_wraps:
  "snd (default_handler scenario_cfg scenario_env 0xFFFFFFFFFFFFFFF8 edge_zone scenario_ctx) =
     Returns (True, edge_zone\<lparr>redzone := 0\<rparr>)"
proof -
  have r: "round_up (0xFFFFFFFFFFFFFFF8 + sizeof_Word) (unit scenario_cfg) = (0 :: 64 word)"
    by (simp add: round_up_def sizeof_Word_def scenario_cfg_def)
  show ?thesis
    by (simp add: snd_default_handler scenario_full r) (simp add: scenario_env_def)
qed

text \<open>
  \<^bold>\<open>C1\<close> (as amended). Let the alignment unit be a power of two, and let every
  registered zone start with \<open>min \<le> redzone \<le> top \<le> hardmax\<close> and with its \<open>top\<close> at
  least one word and one alignment unit below the end of the address space. Then in
  every state reached by a sequence of operations of the core (installing the handlers,
  routing a fault, delivering a signal to a handler) that returns, every zone has
  \<open>min \<le> redzone \<le> hardmax\<close> and \<open>top \<le> hardmax\<close>, and differs from its initial value
  in the \<open>redzone\<close> field at most. The same holds for a single call of
  \<open>default_handler\<close> on a fault address the router matches to the zone: it never sets
  \<open>redzone\<close> above \<open>hardmax\<close>. The link \<open>redzone \<le> top\<close> is not part of what is kept.
\<close>

theorem zone_bounds_kept:
  assumes "unit_ok cfg"
  shows
    "(zone_bounds z \<and> headroom cfg z \<and> redzone z \<le> a \<and> a \<le> top_zone z \<and>
      snd (default_handler cfg env a z ctx) = Returns (b, z') \<longrightarrow>
        zone_bounds z' \<and> z' = z\<lparr>redzone := redzone z'\<rparr>) \<and>
     (list_all zone_chain zones \<and> list_all (headroom cfg) zones \<and>
      snd (run cfg steps zones) = Returns zones' \<longrightarrow>
        list_all zone_bounds zones' \<and>
        list_all2 (\<lambda>zone zone'. zone' = zone\<lparr>redzone := redzone zone'\<rparr>) zones zones')"
proof -
  have 1: "zone_bounds z \<and> headroom cfg z \<and> redzone z \<le> a \<and> a \<le> top_zone z \<and>
      snd (default_handler cfg env a z ctx) = Returns (b, z') \<longrightarrow>
        zone_bounds z' \<and> z' = z\<lparr>redzone := redzone z'\<rparr>"
  proof (rule impI)
    assume h: "zone_bounds z \<and> headroom cfg z \<and> redzone z \<le> a \<and> a \<le> top_zone z \<and>
      snd (default_handler cfg env a z ctx) = Returns (b, z')"
    then have "no_wrap cfg a" by (auto simp: headroom_def intro: no_wrap_le)
    with h assms have "zone_step z z'" by (auto intro: default_handler_step)
    with h show "zone_bounds z' \<and> z' = z\<lparr>redzone := redzone z'\<rparr>"
      by (simp add: zone_step_def redzone_raised_def)
  qed
  have 2: "list_all zone_chain zones \<and> list_all (headroom cfg) zones \<and>
      snd (run cfg steps zones) = Returns zones' \<longrightarrow>
        list_all zone_bounds zones' \<and>
        list_all2 (\<lambda>zone zone'. zone' = zone\<lparr>redzone := redzone zone'\<rparr>) zones zones'"
  proof (rule impI)
    assume h: "list_all zone_chain zones \<and> list_all (headroom cfg) zones \<and>
      snd (run cfg steps zones) = Returns zones'"
    with assms have s: "list_all2 zone_step zones zones'" by (auto intro: run_step)
    from h have "list_all zone_bounds zones"
      by (auto simp: list_all_iff intro: zone_chain_bounds)
    with s have b: "list_all zone_bounds zones'" by (rule list_all2_zone_step_bounds)
    from s have "list_all2 (\<lambda>zone zone'. zone' = zone\<lparr>redzone := redzone zone'\<rparr>) zones zones'"
      by (rule list_all2_mono) (simp add: zone_step_def redzone_raised_def)
    with b show "list_all zone_bounds zones' \<and>
        list_all2 (\<lambda>zone zone'. zone' = zone\<lparr>redzone := redzone zone'\<rparr>) zones zones'"
      by simp
  qed
  from 1 2 show ?thesis by (rule conjI)
qed

theorem zone_bounds_kept_witness:
  "unit_ok scenario_cfg \<and> list_all zone_chain [detstack] \<and>
   list_all (headroom scenario_cfg) [detstack] \<and>
   snd (run scenario_cfg
          [(scenario_env, Setup_signal), (scenario_env, Route 0x3000 scenario_ctx)] [detstack]) =
     Returns [detstack\<lparr>redzone := 0x4000\<rparr>] \<and>
   list_all zone_bounds [detstack\<lparr>redzone := 0x4000\<rparr>]"
  using zone_bounds_kept [OF scenario_unit_ok, THEN conjunct2,
      of "[detstack]"
         "[(scenario_env, Setup_signal), (scenario_env, Route 0x3000 scenario_ctx)]"
         "[detstack\<lparr>redzone := 0x4000\<rparr>]"]
  by (simp add: scenario_unit_ok scenario_chain scenario_headroom scenario_run del: run.simps)

text \<open>
  The chain as the data model states it is not kept: \<open>default_handler\<close> compares the new
  boundary with \<open>hardmax\<close> only. For \<open>"detstack"#0\<close> (\<open>top = 0x3000\<close>,
  \<open>hardmax = 0x9000\<close>) a fault at \<open>0x3000\<close>, which the router matches to the zone, is
  handled and leaves \<open>redzone = 0x4000\<close>, above \<open>top\<close>. And for a zone that ends with
  the address space, a fault on its last word wraps the boundary to 0, which leaves
  \<open>redzone\<close> below \<open>min\<close>: hence the distance from the end of the address space that
  the amended statement asks for.
\<close>

theorem zone_chain_counterexample:
  "zone_chain detstack \<and>
   redzone detstack \<le> 0x3000 \<and> 0x3000 \<le> top_zone detstack \<and>
   snd (default_handler scenario_cfg scenario_env 0x3000 detstack scenario_ctx) =
     Returns (True, detstack\<lparr>redzone := 0x4000\<rparr>) \<and>
   snd (run scenario_cfg
          [(scenario_env, Setup_signal), (scenario_env, Route 0x3000 scenario_ctx)] [detstack]) =
     Returns [detstack\<lparr>redzone := 0x4000\<rparr>] \<and>
   top_zone (detstack\<lparr>redzone := 0x4000\<rparr>) < redzone (detstack\<lparr>redzone := 0x4000\<rparr>) \<and>
   \<not> zone_chain (detstack\<lparr>redzone := 0x4000\<rparr>) \<and>
   zone_chain edge_zone \<and>
   redzone edge_zone \<le> 0xFFFFFFFFFFFFFFF8 \<and> 0xFFFFFFFFFFFFFFF8 \<le> top_zone edge_zone \<and>
   snd (default_handler scenario_cfg scenario_env 0xFFFFFFFFFFFFFFF8 edge_zone scenario_ctx) =
     Returns (True, edge_zone\<lparr>redzone := 0\<rparr>) \<and>
   redzone (edge_zone\<lparr>redzone := 0\<rparr>) < min_zone (edge_zone\<lparr>redzone := 0\<rparr>)"
proof -
  have "redzone detstack \<le> 0x3000" "0x3000 \<le> top_zone detstack"
    "top_zone (detstack\<lparr>redzone := 0x4000\<rparr>) < redzone (detstack\<lparr>redzone := 0x4000\<rparr>)"
    "\<not> zone_chain (detstack\<lparr>redzone := 0x4000\<rparr>)"
    by (simp_all add: detstack_def zone_chain_def)
  moreover have "zone_chain edge_zone" "redzone edge_zone \<le> 0xFFFFFFFFFFFFFFF8"
    "0xFFFFFFFFFFFFFFF8 \<le> top_zone edge_zone"
    "redzone (edge_zone\<lparr>redzone := 0\<rparr>) < min_zone (edge_zone\<lparr>redzone := 0\<rparr>)"
    by (simp_all add: zone_chain_def edge_zone_def)
  ultimately show ?thesis
    using scenario_chain scenario_grow_3000 scenario_run edge_zone_wraps
    by (simp del: run.simps)
qed

subsection \<open>The guard band only moves up\<close>

lemma redzone_raised_refl: "redzone_raised z z"
  by (simp add: redzone_raised_def)

lemma redzone_raised_trans: "redzone_raised x y \<Longrightarrow> redzone_raised y z \<Longrightarrow> redzone_raised x z"
  by (cases x; cases y; cases z) (auto simp: redzone_raised_def)

lemma mprotect_refuses_below:
  fixes new r :: "'a::len word"
  assumes "mprotect_bounded env" and "new < r"
  shows "mprotect env r (new - r) < 0"
proof -
  from assms(2) have lt: "unat new < unat r" by (simp add: word_less_nat_alt)
  then have "unat (new - r) = unat new + 2 ^ LENGTH('a) - unat r"
    by (simp add: unat_sub_if')
  moreover have "unat r < 2 ^ LENGTH('a)" by simp
  ultimately have "2 ^ LENGTH('a) \<le> unat r + unat (new - r)" by linarith
  with assms(1) show ?thesis by (simp add: mprotect_bounded_def)
qed

lemma default_handler_raises:
  assumes "mprotect_bounded env"
    and "snd (default_handler cfg env a z ctx) = Returns (b, z')"
  shows "redzone_raised z z'"
proof (cases "full_capability cfg")
  case False
  with assms(2) have "z' = z" by (simp add: snd_default_handler)
  then show ?thesis by (simp add: redzone_raised_refl)
next
  case True
  let ?new = "round_up (a + sizeof_Word) (unit cfg)"
  from True assms(2) have ok: "\<not> mprotect env (redzone z) (?new - redzone z) < 0"
    and z': "z' = z\<lparr>redzone := ?new\<rparr>"
    by (auto simp: snd_default_handler split: if_splits)
  have "redzone z \<le> ?new"
  proof (rule ccontr)
    assume "\<not> redzone z \<le> ?new"
    then have "?new < redzone z" by simp
    with assms(1) have "mprotect env (redzone z) (?new - redzone z) < 0"
      by (rule mprotect_refuses_below)
    with ok show False by simp
  qed
  with z' show ?thesis by (simp add: redzone_raised_def)
qed

lemma call_handler_raises:
  assumes "mprotect_bounded env"
    and "snd (call_handler h cfg env a z ctx) = Returns (b, z')"
  shows "redzone_raised z z'"
proof (cases h)
  case Default_handler
  with assms show ?thesis by (simp add: call_handler_def default_handler_raises)
next
  case Null_handler
  with assms(2) have "z' = z" by (simp add: call_handler_def null_handler_def snd_io)
  then show ?thesis by (simp add: redzone_raised_refl)
qed

lemma zone_loop_raises:
  "mprotect_bounded env \<Longrightarrow>
   snd (zone_loop cfg env a ctx zones) = Returns (b, zones') \<Longrightarrow>
   list_all2 redzone_raised zones zones'"
proof (induction zones arbitrary: b zones')
  case Nil
  then show ?case by (simp add: snd_zone_loop_Nil)
next
  case (Cons z rest)
  show ?case
  proof (cases "in_redzone a z")
    case True
    with Cons.prems(2) obtain z' where
      c: "snd (call_handler (handler z) cfg env a z ctx) = Returns (b, z')" and
      zs: "zones' = z' # rest"
      by (auto simp: snd_zone_loop_Cons split: result.splits)
    from Cons.prems(1) c have "redzone_raised z z'" by (rule call_handler_raises)
    with zs show ?thesis by (simp add: list_all2_refl redzone_raised_refl)
  next
    case False
    with Cons.prems(2) obtain rest' where
      c: "snd (zone_loop cfg env a ctx rest) = Returns (b, rest')" and zs: "zones' = z # rest'"
      by (auto simp: snd_zone_loop_Cons split: result.splits)
    from Cons.IH [OF Cons.prems(1) c] zs show ?thesis by (simp add: redzone_raised_refl)
  qed
qed

lemma try_munprotect_raises:
  assumes "mprotect_bounded env"
    and "snd (try_munprotect cfg env a ctx zones) = Returns (b, zones')"
  shows "list_all2 redzone_raised zones zones'"
proof (cases "full_capability cfg")
  case True
  with assms show ?thesis by (simp add: snd_try_munprotect zone_loop_raises)
next
  case False
  with assms(2) have "zones' = zones" by (simp add: snd_try_munprotect)
  then show ?thesis by (simp add: list_all2_refl redzone_raised_refl)
qed

lemma deliver_raises:
  assumes "mprotect_bounded env"
    and "snd (deliver h cfg env sig info ctx zones) = Returns zones'"
  shows "list_all2 redzone_raised zones zones'"
proof (cases h)
  case Complex_sighandler
  with assms(2) have "snd (complex_sighandler cfg env sig ctx zones) = Returns zones'"
    by (simp add: snd_deliver)
  then have "snd (try_munprotect cfg env (cr2 ctx) ctx zones) = Returns (True, zones')"
    by (rule complex_sighandler_returns)
  then show ?thesis by (rule try_munprotect_raises [OF assms(1)])
next
  case Complex_bushandler
  with assms(2) show ?thesis by (simp add: snd_deliver)
next
  case Complex_segvhandler
  with assms(2) have "snd (complex_segvhandler cfg env sig info ctx zones) = Returns zones'"
    by (simp add: snd_deliver)
  then have "snd (try_munprotect cfg env (si_addr (the info)) ctx zones) = Returns (True, zones')"
    by (rule complex_segvhandler_returns)
  then show ?thesis by (rule try_munprotect_raises [OF assms(1)])
next
  case Simple_sighandler
  with assms(2) show ?thesis by (simp add: snd_deliver)
qed

lemma exec_op_raises:
  assumes "mprotect_bounded env"
    and "snd (exec_op cfg env op zones) = Returns zones'"
  shows "list_all2 redzone_raised zones zones'"
proof (cases op)
  case Setup_signal
  with assms(2) have "zones' = zones"
    by (auto simp: exec_op_def snd_io split: result.splits)
  then show ?thesis by (simp add: list_all2_refl redzone_raised_refl)
next
  case (Route a ctx)
  show ?thesis
  proof (cases "snd (try_munprotect cfg env a ctx zones)")
    case (Returns r)
    with Route assms(2) have "zones' = snd r"
      by (simp add: exec_op_def snd_io split: prod.splits)
    with Returns have "snd (try_munprotect cfg env a ctx zones) = Returns (fst r, zones')"
      by simp
    then show ?thesis by (rule try_munprotect_raises [OF assms(1)])
  next
    case (Exits status)
    with Route assms(2) show ?thesis by (simp add: exec_op_def snd_io)
  qed
next
  case (Deliver h sig info ctx)
  with assms(2) show ?thesis by (simp add: exec_op_def deliver_raises [OF assms(1)])
qed

lemma run_raises:
  "list_all (\<lambda>step. mprotect_bounded (fst step)) steps \<Longrightarrow>
   snd (run cfg steps zones) = Returns zones' \<Longrightarrow> list_all2 redzone_raised zones zones'"
proof (induction steps arbitrary: zones)
  case Nil
  then show ?case by (simp add: snd_io list_all2_refl redzone_raised_refl)
next
  case (Cons step steps)
  from Cons.prems(2) obtain mid where
    e: "snd (exec_op cfg (fst step) (snd step) zones) = Returns mid" and
    r: "snd (run cfg steps mid) = Returns zones'"
    by (auto simp: snd_io split: result.splits)
  from Cons.prems(1) have m: "mprotect_bounded (fst step)" by simp
  have 1: "list_all2 redzone_raised zones mid" by (rule exec_op_raises [OF m e])
  from Cons.prems(1) have "list_all (\<lambda>step. mprotect_bounded (fst step)) steps" by simp
  then have "list_all2 redzone_raised mid zones'" using r by (rule Cons.IH)
  with 1 show ?case by (rule list_all2_trans [rotated]) (rule redzone_raised_trans)
qed

lemma bounded_env_ok: "mprotect_bounded bounded_env"
  by (simp add: mprotect_bounded_def bounded_env_def)

lemma bounded_grow_3000:
  "snd (default_handler scenario_cfg bounded_env 0x3000 detstack scenario_ctx) =
     Returns (True, detstack\<lparr>redzone := 0x4000\<rparr>)"
proof -
  have r: "round_up (0x3000 + sizeof_Word) (unit scenario_cfg) = (0x4000 :: 64 word)"
    by (simp add: round_up_def sizeof_Word_def scenario_cfg_def)
  show ?thesis
    by (simp add: snd_default_handler scenario_full r)
       (simp add: bounded_env_def detstack_def)
qed

lemma bounded_edge_exits:
  "snd (default_handler scenario_cfg bounded_env 0xFFFFFFFFFFFFFFF8 edge_zone scenario_ctx) =
     Exits 1"
proof -
  have r: "round_up (0xFFFFFFFFFFFFFFF8 + sizeof_Word) (unit scenario_cfg) = (0 :: 64 word)"
    by (simp add: round_up_def sizeof_Word_def scenario_cfg_def)
  show ?thesis
    by (simp add: snd_default_handler scenario_full r)
       (simp add: bounded_env_def edge_zone_def)
qed

lemma bounded_run:
  "snd (run scenario_cfg
          [(bounded_env, Setup_signal), (bounded_env, Route 0x3000 scenario_ctx)] [detstack]) =
     Returns [detstack\<lparr>redzone := 0x4000\<rparr>]"
proof -
  have s: "snd (setup_signal scenario_cfg bounded_env) =
     Returns [(7, Complex_bushandler), (11, Complex_segvhandler)]"
    by (simp add: setup_signal_def scenario_cfg_def scenario_env_def bounded_env_def snd_io)
  have "in_redzone 0x3000 detstack" by (simp add: in_redzone_def detstack_def)
  moreover have "handler detstack = Default_handler" by (simp add: detstack_def)
  ultimately have t: "snd (try_munprotect scenario_cfg bounded_env 0x3000 scenario_ctx [detstack]) =
     Returns (True, [detstack\<lparr>redzone := 0x4000\<rparr>])"
    by (simp add: snd_try_munprotect scenario_full snd_zone_loop_Cons call_handler_def
        bounded_grow_3000)
  show ?thesis by (simp add: snd_io exec_op_def s t)
qed

text \<open>
  \<^bold>\<open>C5.\<close> Let \<open>mprotect\<close> refuse every range that runs to or past the end of the address
  space, as the system call does. Then a call of \<open>default_handler\<close> that returns leaves
  \<open>redzone\<close> at or above its previous value and changes no other field, for every fault
  address (so in particular under the router's precondition \<open>redzone \<le> fault_addr\<close>);
  \<open>null_handler\<close> changes nothing; and over any sequence of operations of the core that
  returns, every zone changes in the \<open>redzone\<close> field only, and that field does not
  decrease. (A boundary below \<open>redzone\<close> needs the address arithmetic to wrap around;
  the length handed to \<open>mprotect\<close> then wraps as well, the range runs past the end of
  the address space, the call is refused and the process exits: the instance that
  follows ends with such a fault.)
\<close>

theorem redzone_monotone:
  "(mprotect_bounded env \<and> snd (default_handler cfg env a z ctx) = Returns (b, z') \<longrightarrow>
      redzone z \<le> redzone z' \<and> z' = z\<lparr>redzone := redzone z'\<rparr>) \<and>
   snd (null_handler cfg env a z ctx) = Returns (False, z) \<and>
   (list_all (\<lambda>step. mprotect_bounded (fst step)) steps \<and>
    snd (run cfg steps zones) = Returns zones' \<longrightarrow>
      list_all2 redzone_raised zones zones')"
proof -
  have 1: "mprotect_bounded env \<and> snd (default_handler cfg env a z ctx) = Returns (b, z') \<longrightarrow>
      redzone z \<le> redzone z' \<and> z' = z\<lparr>redzone := redzone z'\<rparr>"
  proof (rule impI)
    assume "mprotect_bounded env \<and> snd (default_handler cfg env a z ctx) = Returns (b, z')"
    then have "redzone_raised z z'" by (auto intro: default_handler_raises)
    then show "redzone z \<le> redzone z' \<and> z' = z\<lparr>redzone := redzone z'\<rparr>"
      by (simp add: redzone_raised_def)
  qed
  have 2: "snd (null_handler cfg env a z ctx) = Returns (False, z)"
    by (simp add: null_handler_def snd_io)
  have 3: "list_all (\<lambda>step. mprotect_bounded (fst step)) steps \<and>
    snd (run cfg steps zones) = Returns zones' \<longrightarrow> list_all2 redzone_raised zones zones'"
    by (auto intro: run_raises)
  from 1 2 3 show ?thesis by simp
qed

theorem redzone_monotone_witness:
  "mprotect_bounded bounded_env \<and> redzone detstack \<le> 0x3000 \<and>
   snd (default_handler scenario_cfg bounded_env 0x3000 detstack scenario_ctx) =
     Returns (True, detstack\<lparr>redzone := 0x4000\<rparr>) \<and>
   redzone detstack \<le> redzone (detstack\<lparr>redzone := 0x4000\<rparr>) \<and>
   snd (run scenario_cfg
          [(bounded_env, Setup_signal), (bounded_env, Route 0x3000 scenario_ctx)] [detstack]) =
     Returns [detstack\<lparr>redzone := 0x4000\<rparr>] \<and>
   list_all2 redzone_raised [detstack] [detstack\<lparr>redzone := 0x4000\<rparr>] \<and>
   redzone edge_zone \<le> 0xFFFFFFFFFFFFFFF8 \<and> 0xFFFFFFFFFFFFFFF8 \<le> top_zone edge_zone \<and>
   snd (default_handler scenario_cfg bounded_env 0xFFFFFFFFFFFFFFF8 edge_zone scenario_ctx) =
     Exits 1"
proof -
  have n: "redzone detstack \<le> 0x3000" "redzone edge_zone \<le> 0xFFFFFFFFFFFFFFF8"
    "0xFFFFFFFFFFFFFFF8 \<le> top_zone edge_zone"
    by (simp_all add: detstack_def edge_zone_def)
  note t1 = redzone_monotone [THEN conjunct1, of bounded_env scenario_cfg "0x3000" detstack
      scenario_ctx True "detstack\<lparr>redzone := 0x4000\<rparr>"]
  note t3 = redzone_monotone [THEN conjunct2, THEN conjunct2,
      of "[(bounded_env, Setup_signal), (bounded_env, Route 0x3000 scenario_ctx)]"
         scenario_cfg "[detstack]" "[detstack\<lparr>redzone := 0x4000\<rparr>]"]
  from t1 t3 n bounded_env_ok bounded_grow_3000 bounded_run bounded_edge_exits
  show ?thesis by (simp del: run.simps)
qed

subsection \<open>The stack dump\<close>

lemma collapse_Cons:
  "collapse (x # xs) =
     (x, Suc (length (takeWhile (\<lambda>y. y = x) xs))) # collapse (dropWhile (\<lambda>y. y = x) xs)"
proof (induction xs)
  case Nil
  show ?case by simp
next
  case (Cons y ys)
  show ?case
  proof (cases "y = x")
    case True
    have "collapse (x # y # ys) =
          (case collapse (y # ys) of [] \<Rightarrow> [(x, 1)]
           | (z, n) # rest \<Rightarrow> if x = z then (z, n + 1) # rest else (x, 1) # (z, n) # rest)"
      by simp
    also have "collapse (y # ys) =
       (x, Suc (length (takeWhile (\<lambda>y. y = x) ys))) # collapse (dropWhile (\<lambda>y. y = x) ys)"
      using Cons.IH True by simp
    finally show ?thesis using True by simp
  next
    case False
    have ne: "collapse (y # ys) \<noteq> []" by (simp split: list.splits)
    have hd: "fst (hd (collapse (y # ys))) = y" by (simp split: list.splits)
    from ne obtain z n rest where c: "collapse (y # ys) = (z, n) # rest"
      by (cases "collapse (y # ys)") auto
    with hd have "z = y" by simp
    with c False show ?thesis by (simp del: collapse.simps(2) add: collapse.simps(2) [of x])
  qed
qed

lemma dump_run_takeWhile:
  "i \<le> length ds \<Longrightarrow>
   dump_run ds start i count =
     (i + length (takeWhile (\<lambda>y. y = ds ! start) (drop i ds)),
      count + length (takeWhile (\<lambda>y. y = ds ! start) (drop i ds)))"
proof (induction ds start i count rule: dump_run.induct)
  case (1 ds start i count)
  show ?case
  proof (cases "i < length ds")
    case True
    then have d: "drop i ds = ds ! i # drop (Suc i) ds" by (simp add: Cons_nth_drop_Suc)
    show ?thesis
    proof (cases "ds ! i = ds ! start")
      case eq: True
      from True have "i + 1 \<le> length ds" by simp
      with "1.IH" True eq show ?thesis
        by (subst dump_run.simps) (simp add: d)
    next
      case False
      then show ?thesis by (subst dump_run.simps) (simp add: d)
    qed
  next
    case False
    with "1.prems" have "i = length ds" by simp
    then show ?thesis by (subst dump_run.simps) simp
  qed
qed

lemma dump_lines_drop:
  "i \<le> length ds \<Longrightarrow> dump_lines ds i = map dump_line (collapse (drop i ds))"
proof (induction ds i rule: dump_lines.induct)
  case (1 ds i)
  show ?case
  proof (cases "i < length ds")
    case True
    let ?k = "length (takeWhile (\<lambda>y. y = ds ! i) (drop (Suc i) ds))"
    have d: "drop i ds = ds ! i # drop (Suc i) ds" using True by (simp add: Cons_nth_drop_Suc)
    have r: "dump_run ds i (i + 1) 1 = (Suc i + ?k, Suc ?k)"
      using True by (simp add: dump_run_takeWhile)
    have le: "Suc i + ?k \<le> length ds"
    proof -
      have "?k \<le> length (drop (Suc i) ds)" by (rule length_takeWhile_le)
      with True show ?thesis by simp
    qed
    have IH: "dump_lines ds (Suc i + ?k) = map dump_line (collapse (drop (Suc i + ?k) ds))"
      using "1.IH" [OF True refl r [symmetric] refl refl] le by (simp add: r)
    have dw: "dropWhile (\<lambda>y. y = ds ! i) (drop (Suc i) ds) = drop (Suc i + ?k) ds"
      by (simp add: dropWhile_eq_drop add.commute)
    have r': "dump_run ds i (Suc i) (Suc 0) = (Suc i + ?k, Suc ?k)"
      using r by simp
    have "dump_lines ds i = dump_line (ds ! i, Suc ?k) # dump_lines ds (Suc i + ?k)"
      using True by (subst dump_lines.simps) (simp add: r' Let_def dump_line_def)
    also have "\<dots> = map dump_line (collapse (drop i ds))"
      using IH by (simp add: d collapse_Cons dw del: collapse.simps)
    finally show ?thesis .
  next
    case False
    with "1.prems" show ?thesis by (subst dump_lines.simps) simp
  qed
qed

lemma dump_lines_collapse: "dump_lines ds 0 = map dump_line (collapse ds)"
  using dump_lines_drop [of 0 ds] by simp

lemma collapse_eq_Nil: "collapse ds = [] \<longleftrightarrow> ds = []"
  by (cases ds) (simp_all split: list.splits)

lemma collapse_expand: "concat (map (\<lambda>r. replicate (snd r) (fst r)) (collapse ds)) = ds"
  by (induction ds) (auto split: list.splits simp: collapse_eq_Nil)

lemma collapse_counts: "list_all (\<lambda>r. 1 \<le> snd r) (collapse ds)"
proof (induction ds)
  case Nil
  show ?case by simp
next
  case (Cons x xs)
  then show ?case by (cases "collapse xs") auto
qed

lemma collapse_distinct_adj: "distinct_adj (map fst (collapse ds))"
proof (induction ds)
  case Nil
  show ?case by simp
next
  case (Cons x xs)
  then show ?case by (cases "collapse xs") auto
qed

lemma maximal_runs_collapse: "maximal_runs (collapse ds) ds"
  unfolding maximal_runs_def
  by (intro conjI collapse_expand collapse_counts collapse_distinct_adj)

lemma length_show_nat: "0 < k \<Longrightarrow> n < 10 ^ k \<Longrightarrow> length (show_nat 10 n) \<le> k"
proof (induction k arbitrary: n)
  case 0
  then show ?case by simp
next
  case (Suc k)
  show ?case
  proof (cases "n < 10")
    case True
    then show ?thesis by (simp add: show_nat_digit)
  next
    case False
    from Suc.prems(2) have m: "n < 10 ^ k * 10" by simp
    then have d: "n div 10 < 10 ^ k" by (rule less_mult_imp_div_less)
    have k: "0 < k"
    proof (rule ccontr)
      assume "\<not> 0 < k"
      with m False show False by simp
    qed
    from Suc.IH [OF k d] False show ?thesis by (simp add: show_nat_step)
  qed
qed

lemma collapse_count_le:
  assumes r: "r \<in> set (collapse ds)"
  shows "fst r \<in> set ds \<and> snd r \<le> length ds"
proof -
  let ?expand = "\<lambda>rs. concat (map (\<lambda>r. replicate (snd r) (fst r)) rs)"
  from r obtain xs ys where s: "collapse ds = xs @ r # ys"
    by (auto simp: in_set_conv_decomp)
  have "?expand (collapse ds) = ds" by (rule collapse_expand)
  then have d: "ds = ?expand xs @ replicate (snd r) (fst r) @ ?expand ys"
    by (simp add: s)
  have "list_all (\<lambda>r. 1 \<le> snd r) (collapse ds)" by (rule collapse_counts)
  with r have c: "1 \<le> snd r" by (simp add: list_all_iff)
  have 1: "fst r \<in> set ds" by (subst d) (use c in simp)
  have "length ds = length (?expand xs) + (snd r + length (?expand ys))"
    by (subst d) (simp only: length_append length_replicate)
  then have "snd r \<le> length ds" by simp
  with 1 show ?thesis by simp
qed

lemma dump_fits_short_labels:
  assumes "\<forall>l\<in>set (dumpstack env). length l \<le> 2545" and "length (dumpstack env) < 10 ^ 10"
  shows "dump_fits cfg env"
proof -
  have "fits_buf 2560 (dump_line r)" if r: "r \<in> set (collapse (dumpstack env))" for r
  proof -
    from collapse_count_le [OF r] assms have l: "length (fst r) \<le> 2545"
      and c: "snd r < 10 ^ 10" by auto
    have "length (show_nat 10 (snd r)) \<le> 10" by (rule length_show_nat [OF _ c]) simp
    with l show ?thesis by (simp add: fits_buf_def dump_line_def fmt_d_def nl_def)
  qed
  then show ?thesis
    by (simp add: dump_fits_def dump_lines_collapse list_all_iff)
qed

text \<open>
  \<^bold>\<open>C8.\<close> With \<open>MR_LOWLEVEL_DEBUG\<close>, and every formatted line fitting the buffer of
  \<open>print_dump_stack\<close> (\<open>dump_fits\<close>; labels of at most 2545 characters always do),
  \<open>print_dump_stack\<close> writes its heading, then one line per maximal run of equal
  consecutive labels of the recorded history, in order, \<open>"<label> * <count>\n"\<close> for a
  run longer than one and \<open>"<label>\n"\<close> for a single entry, then its closing line.
  (\<open>collapse\<close> lists exactly the maximal runs: expanding them gives the history back,
  none is empty, neighbours differ.) Without \<open>MR_LOWLEVEL_DEBUG\<close> it writes the one-line
  hint that a stack dump needs \<open>--low-level-debug\<close>.
\<close>

theorem print_dump_stack_collapses:
  "(MR_LOWLEVEL_DEBUG cfg \<and> dump_fits cfg env \<longrightarrow>
      fst (print_dump_stack cfg env) =
        [''A dump of the det stack follows'' @ nl @ nl] @
        map dump_line (collapse (dumpstack env)) @
        [nl @ ''end of stack dump'' @ nl] \<and>
      maximal_runs (collapse (dumpstack env)) (dumpstack env)) \<and>
   (\<not> MR_LOWLEVEL_DEBUG cfg \<longrightarrow>
      fst (print_dump_stack cfg env) =
        [''You can get a stack dump by using '' @ [CHR 0x60] @ ''--low-level-debug'' @
         [CHR 0x27] @ nl])"
  by (simp add: print_dump_stack_def io_defs dump_lines_collapse maximal_runs_collapse)

theorem print_dump_stack_collapses_witness:
  "MR_LOWLEVEL_DEBUG debug_cfg \<and> dump_fits debug_cfg history_env \<and>
   fst (print_dump_stack debug_cfg history_env) =
     [''A dump of the det stack follows'' @ nl @ nl,
      ''main * 2'' @ nl, ''append'' @ nl, ''main'' @ nl, ''len * 3'' @ nl,
      nl @ ''end of stack dump'' @ nl] \<and>
   \<not> MR_LOWLEVEL_DEBUG scenario_cfg \<and>
   fst (print_dump_stack scenario_cfg history_env) =
     [''You can get a stack dump by using '' @ [CHR 0x60] @ ''--low-level-debug'' @
      [CHR 0x27] @ nl]"
proof -
  have d: "MR_LOWLEVEL_DEBUG debug_cfg" "\<not> MR_LOWLEVEL_DEBUG scenario_cfg"
    by (simp_all add: debug_cfg_def scenario_cfg_def)
  have c: "map dump_line (collapse (dumpstack history_env)) =
     [''main * 2'' @ nl, ''append'' @ nl, ''main'' @ nl, ''len * 3'' @ nl]"
    by (simp add: history_env_def dump_line_def fmt_d_def show_nat_digit digit_char_def)
  have f: "dump_fits debug_cfg history_env"
    by (simp add: dump_fits_def dump_lines_collapse c fits_buf_def nl_def)
  from print_dump_stack_collapses [of debug_cfg history_env]
    print_dump_stack_collapses [of scenario_cfg history_env] d c f
  show ?thesis by simp
qed

subsection \<open>What the abort path writes\<close>

text \<open>
  \<^bold>\<open>C6\<close> (as amended). Every call of \<open>fatal_abort\<close> writes the given message, then the
  context message (the line \<open>"PC at signal: ..."\<close> when \<open>PC_ACCESS\<close> is defined, the empty
  string otherwise), then the raw trace report and, if \<open>dump\<close> is set, the stack dump or
  the hint, and ends the process with status 1. It writes nothing else: the function is
  not given the fault address and does not print it.
\<close>

theorem fatal_abort_emits:
  "fatal_abort cfg env ctx main_msg dump =
     ([main_msg, explain_context cfg ctx] @ trace_report_raw env @
      (if dump \<noteq> 0 then fst (print_dump_stack cfg env) else []), Exits 1) \<and>
   explain_context cfg ctx =
     (if PC_ACCESS cfg
      then ''PC at signal: '' @ fmt_d (sint (pc ctx)) @ '' ('' @ fmt_x (unat (pc ctx)) @ '')'' @ nl
      else [])"
  by (simp add: fatal_abort_eq explain_context_def)

theorem fatal_abort_emits_witness:
  "fatal_abort scenario_cfg scenario_env scenario_ctx ''boom'' 1 =
     ([''boom'', ''PC at signal: 4194595 (400123)'' @ nl,
       ''You can get a stack dump by using '' @ [CHR 0x60] @ ''--low-level-debug'' @
         [CHR 0x27] @ nl],
      Exits 1)"
  using fatal_abort_emits [of scenario_cfg scenario_env scenario_ctx "''boom''" 1]
  by (simp add: scenario_pc_line scenario_hint) (simp add: scenario_env_def)

text \<open>
  The claim as stated fails: with an empty trace report and no dump, all that
  \<open>fatal_abort\<close> writes is the message and the program-counter line; no text for a fault
  address follows them.
\<close>

theorem fatal_abort_no_address:
  "stderr_of (fatal_abort scenario_cfg scenario_env scenario_ctx ''boom'' 0) =
     ''boom'' @ ''PC at signal: 4194595 (400123)'' @ nl \<and>
   \<not> (\<exists>address_text rest.
         address_text \<noteq> [] \<and>
         stderr_of (fatal_abort scenario_cfg scenario_env scenario_ctx ''boom'' 0) =
           ''boom'' @ explain_context scenario_cfg scenario_ctx @ address_text @ rest)"
proof -
  have t: "trace_report_raw scenario_env = []" by (simp add: scenario_env_def)
  have e: "stderr_of (fatal_abort scenario_cfg scenario_env scenario_ctx ''boom'' 0) =
     ''boom'' @ explain_context scenario_cfg scenario_ctx"
    by (simp add: stderr_of_def fatal_abort_eq t)
  show ?thesis unfolding e by (simp add: scenario_pc_line)
qed

subsection \<open>Exit statuses\<close>

lemma exits_only_1_simps:
  "exits_only_1 (Returns v)" "exits_only_1 (Exits s) = (s = 1)"
  by (simp_all add: exits_only_1_def)

lemma snd_setup_signal:
  "snd (setup_signal cfg env) =
     (if (conv cfg = Siginfo_t \<and> \<not> sigemptyset_ok env) \<or> \<not> install_ok env (SIGBUS cfg) \<or>
         \<not> install_ok env (SIGSEGV cfg)
      then Exits 1
      else Returns
        (case conv cfg of
           Sigcontext_struct \<Rightarrow>
             [(SIGBUS cfg, Complex_sighandler), (SIGSEGV cfg, Complex_sighandler)]
         | Siginfo_t \<Rightarrow> [(SIGBUS cfg, Complex_bushandler), (SIGSEGV cfg, Complex_segvhandler)]
         | Simple_signal \<Rightarrow> [(SIGBUS cfg, Simple_sighandler), (SIGSEGV cfg, Simple_sighandler)]))"
  by (cases "conv cfg") (simp_all add: setup_signal_def perror_def snd_io)

lemma default_handler_exits: "exits_only_1 (snd (default_handler cfg env a z ctx))"
  by (simp add: snd_default_handler exits_only_1_simps)

lemma call_handler_exits: "exits_only_1 (snd (call_handler h cfg env a z ctx))"
  by (cases h) (simp_all add: call_handler_def default_handler_exits null_handler_def snd_io
      exits_only_1_simps)

lemma zone_loop_exits: "exits_only_1 (snd (zone_loop cfg env a ctx zones))"
proof (induction zones)
  case Nil
  show ?case by (simp add: snd_zone_loop_Nil exits_only_1_simps)
next
  case (Cons z rest)
  show ?case
  proof (cases "in_redzone a z")
    case True
    with call_handler_exits [of "handler z" cfg env a z ctx] show ?thesis
      by (simp add: snd_zone_loop_Cons exits_only_1_def split: result.splits)
  next
    case False
    with Cons.IH show ?thesis
      by (simp add: snd_zone_loop_Cons exits_only_1_def split: result.splits)
  qed
qed

lemma try_munprotect_exits: "exits_only_1 (snd (try_munprotect cfg env a ctx zones))"
  by (simp add: snd_try_munprotect zone_loop_exits exits_only_1_simps)

lemma deliver_exits: "exits_only_1 (snd (deliver h cfg env sig info ctx zones))"
proof (cases h)
  case Complex_sighandler
  with try_munprotect_exits [of cfg env "cr2 ctx" ctx zones] show ?thesis
    by (simp add: snd_deliver snd_complex_sighandler exits_only_1_def split: result.splits)
next
  case Complex_bushandler
  then show ?thesis by (simp add: snd_deliver exits_only_1_simps)
next
  case Complex_segvhandler
  with try_munprotect_exits [of cfg env "si_addr (the info)" ctx zones] show ?thesis
    by (simp add: snd_deliver snd_complex_segvhandler exits_only_1_def split: result.splits)
next
  case Simple_sighandler
  then show ?thesis by (simp add: snd_deliver exits_only_1_simps)
qed

lemma exec_op_exits: "exits_only_1 (snd (exec_op cfg env op zones))"
proof (cases op)
  case Setup_signal
  then show ?thesis
    by (simp add: exec_op_def snd_io snd_setup_signal exits_only_1_simps)
next
  case (Route a ctx)
  with try_munprotect_exits [of cfg env a ctx zones] show ?thesis
    by (simp add: exec_op_def snd_io exits_only_1_def split: result.splits prod.splits)
next
  case (Deliver h sig info ctx)
  then show ?thesis by (simp add: exec_op_def deliver_exits)
qed

lemma run_exits: "exits_only_1 (snd (run cfg steps zones))"
proof (induction steps arbitrary: zones)
  case Nil
  show ?case by (simp add: snd_io exits_only_1_simps)
next
  case (Cons step steps)
  show ?case
  proof (cases "snd (exec_op cfg (fst step) (snd step) zones)")
    case (Returns mid)
    then have "snd (run cfg (step # steps) zones) = snd (run cfg steps mid)"
      by (simp add: snd_io)
    with Cons.IH [of mid] show ?thesis by simp
  next
    case (Exits status)
    with exec_op_exits [of cfg "fst step" "snd step" zones] show ?thesis
      by (simp add: snd_io exits_only_1_simps)
  qed
qed

text \<open>
  \<^bold>\<open>C7.\<close> Every entry point of the subsystem either returns or ends the process with
  status 1: installing the handlers, the delivery of a signal to any of the four
  handlers, the router, both growth handlers, any sequence of operations;
  \<open>fatal_abort\<close>, \<open>complex_bushandler\<close> and \<open>simple_sighandler\<close> always end it with
  status 1. Each unrecoverable condition ends with status 1: a failed installation; a
  fault the router reports unhandled, which is what it reports for a foreign fault (no
  zone matches) and for a zone bound to \<open>null_handler\<close>; a zone overflow; a refused
  \<open>mprotect\<close>.
\<close>

theorem exit_status_one:
  "exits_only_1 (snd (setup_signal cfg env)) \<and>
   exits_only_1 (snd (deliver h cfg env sig info ctx zones)) \<and>
   exits_only_1 (snd (try_munprotect cfg env a ctx zones)) \<and>
   exits_only_1 (snd (default_handler cfg env a z ctx)) \<and>
   exits_only_1 (snd (null_handler cfg env a z ctx)) \<and>
   exits_only_1 (snd (run cfg steps zones)) \<and>
   snd (fatal_abort cfg env ctx main_msg dump) = Exits 1 \<and>
   snd (complex_bushandler cfg env sig info ctx) = Exits 1 \<and>
   snd (simple_sighandler cfg env sig) = Exits 1 \<and>
   ((conv cfg = Siginfo_t \<and> \<not> sigemptyset_ok env) \<or> \<not> install_ok env (SIGBUS cfg) \<or>
    \<not> install_ok env (SIGSEGV cfg) \<longrightarrow> snd (setup_signal cfg env) = Exits 1) \<and>
   ((\<forall>y\<in>set zones. \<not> in_redzone a y) \<longrightarrow>
      snd (try_munprotect cfg env a ctx zones) = Returns (False, zones)) \<and>
   ((\<exists>pre post. zones = pre @ z # post \<and> (\<forall>y\<in>set pre. \<not> in_redzone a y)) \<and>
    in_redzone a z \<and> handler z = Null_handler \<longrightarrow>
      snd (try_munprotect cfg env a ctx zones) = Returns (False, zones)) \<and>
   (snd (try_munprotect cfg env (cr2 ctx) ctx zones) = Returns (False, zones') \<longrightarrow>
      snd (complex_sighandler cfg env sig ctx zones) = Exits 1) \<and>
   (snd (try_munprotect cfg env (si_addr i) ctx zones) = Returns (False, zones') \<longrightarrow>
      snd (complex_segvhandler cfg env sig (Some i) ctx zones) = Exits 1) \<and>
   (full_capability cfg \<and> hardmax z < round_up (a + sizeof_Word) (unit cfg) \<longrightarrow>
      snd (default_handler cfg env a z ctx) = Exits 1) \<and>
   (full_capability cfg \<and> round_up (a + sizeof_Word) (unit cfg) \<le> hardmax z \<and>
    mprotect env (redzone z) (round_up (a + sizeof_Word) (unit cfg) - redzone z) < 0 \<longrightarrow>
      snd (default_handler cfg env a z ctx) = Exits 1)"
proof -
  have refusal: "(\<exists>pre post. zones = pre @ z # post \<and> (\<forall>y\<in>set pre. \<not> in_redzone a y)) \<and>
    in_redzone a z \<and> handler z = Null_handler \<longrightarrow>
      snd (try_munprotect cfg env a ctx zones) = Returns (False, zones)"
  proof (rule impI)
    assume h: "(\<exists>pre post. zones = pre @ z # post \<and> (\<forall>y\<in>set pre. \<not> in_redzone a y)) \<and>
      in_redzone a z \<and> handler z = Null_handler"
    then obtain pre post where
      zs: "zones = pre @ z # post" and pre: "\<forall>y\<in>set pre. \<not> in_redzone a y"
      by blast
    from h have c: "snd (call_handler (handler z) cfg env a z ctx) = Returns (False, z)"
      by (simp add: call_handler_def null_handler_def snd_io)
    from h have m: "in_redzone a z" by simp
    have "snd (zone_loop cfg env a ctx (pre @ z # post)) =
        (case snd (call_handler (handler z) cfg env a z ctx) of
           Returns r \<Rightarrow> Returns (fst r, pre @ snd r # post)
         | Exits s \<Rightarrow> Exits s)"
      by (rule zone_loop_first_match [OF pre m])
    then have "snd (zone_loop cfg env a ctx (pre @ z # post)) = Returns (False, pre @ z # post)"
      by (simp add: c)
    with zs show "snd (try_munprotect cfg env a ctx zones) = Returns (False, zones)"
      by (simp add: snd_try_munprotect)
  qed
  have foreign: "(\<forall>y\<in>set zones. \<not> in_redzone a y) \<longrightarrow>
      snd (try_munprotect cfg env a ctx zones) = Returns (False, zones)"
    by (simp add: snd_try_munprotect zone_loop_no_match)
  have install: "(conv cfg = Siginfo_t \<and> \<not> sigemptyset_ok env) \<or> \<not> install_ok env (SIGBUS cfg) \<or>
    \<not> install_ok env (SIGSEGV cfg) \<longrightarrow> snd (setup_signal cfg env) = Exits 1"
    by (simp add: snd_setup_signal)
  have unhandled1: "snd (try_munprotect cfg env (cr2 ctx) ctx zones) = Returns (False, zones') \<longrightarrow>
      snd (complex_sighandler cfg env sig ctx zones) = Exits 1"
    by (simp add: snd_complex_sighandler)
  have unhandled2: "snd (try_munprotect cfg env (si_addr i) ctx zones) = Returns (False, zones') \<longrightarrow>
      snd (complex_segvhandler cfg env sig (Some i) ctx zones) = Exits 1"
    by (simp add: snd_complex_segvhandler)
  have overflow: "full_capability cfg \<and> hardmax z < round_up (a + sizeof_Word) (unit cfg) \<longrightarrow>
      snd (default_handler cfg env a z ctx) = Exits 1"
    by (auto simp: snd_default_handler)
  have protection: "full_capability cfg \<and> round_up (a + sizeof_Word) (unit cfg) \<le> hardmax z \<and>
    mprotect env (redzone z) (round_up (a + sizeof_Word) (unit cfg) - redzone z) < 0 \<longrightarrow>
      snd (default_handler cfg env a z ctx) = Exits 1"
    by (simp add: snd_default_handler)
  have null: "exits_only_1 (snd (null_handler cfg env a z ctx))"
    by (simp add: null_handler_def snd_io exits_only_1_simps)
  have setup_exits: "exits_only_1 (snd (setup_signal cfg env))"
    by (simp add: snd_setup_signal exits_only_1_simps)
  show ?thesis
    by (intro conjI setup_exits deliver_exits try_munprotect_exits default_handler_exits null
        run_exits snd_fatal_abort snd_complex_bushandler snd_simple_sighandler install foreign
        refusal unhandled1 unhandled2 overflow protection)
qed

theorem exit_status_one_witness:
  "\<not> install_ok failing_env (SIGSEGV scenario_cfg) \<and>
   snd (setup_signal scenario_cfg failing_env) = Exits 1 \<and>
   \<not> in_redzone 0x6000 detstack \<and> \<not> in_redzone 0x6000 nondetstack \<and>
   snd (try_munprotect scenario_cfg scenario_env 0x6000 scenario_ctx [detstack, nondetstack]) =
     Returns (False, [detstack, nondetstack]) \<and>
   snd (complex_segvhandler scenario_cfg scenario_env 11 (Some foreign_info) scenario_ctx
          [detstack, nondetstack]) = Exits 1 \<and>
   full_capability scenario_cfg \<and>
   hardmax detstack < round_up (0x8FF9 + sizeof_Word) (unit scenario_cfg) \<and>
   snd (default_handler scenario_cfg failing_env 0x8FF9 detstack scenario_ctx) = Exits 1 \<and>
   round_up (0x2F50 + sizeof_Word) (unit scenario_cfg) \<le> hardmax detstack \<and>
   mprotect failing_env (redzone detstack)
     (round_up (0x2F50 + sizeof_Word) (unit scenario_cfg) - redzone detstack) < 0 \<and>
   snd (default_handler scenario_cfg failing_env 0x2F50 detstack scenario_ctx) = Exits 1"
proof -
  have i: "\<not> install_ok failing_env (SIGSEGV scenario_cfg)"
    "mprotect failing_env (redzone detstack)
       (round_up (0x2F50 + sizeof_Word) (unit scenario_cfg) - redzone detstack) < 0"
    by (simp_all add: failing_env_def scenario_cfg_def scenario_env_def)
  have n: "\<not> in_redzone 0x6000 detstack" "\<not> in_redzone 0x6000 nondetstack"
    by (simp_all add: in_redzone_def detstack_def nondetstack_def)
  have r: "hardmax detstack < round_up (0x8FF9 + sizeof_Word) (unit scenario_cfg)"
    "round_up (0x2F50 + sizeof_Word) (unit scenario_cfg) \<le> hardmax detstack"
    by (simp_all add: round_up_def sizeof_Word_def scenario_cfg_def detstack_def)
  have a: "si_addr foreign_info = 0x6000" by (simp add: foreign_info_def)
  note t1 = exit_status_one [of scenario_cfg failing_env _ _ _ scenario_ctx _ "0x8FF9" detstack]
  note t2 = exit_status_one [of scenario_cfg failing_env _ _ _ scenario_ctx _ "0x2F50" detstack]
  note t3 = exit_status_one [of scenario_cfg scenario_env _ 11 _ scenario_ctx
      "[detstack, nondetstack]" "0x6000" _ _ _ _ "[detstack, nondetstack]" foreign_info]
  have s: "snd (setup_signal scenario_cfg failing_env) = Exits 1"
    using t1 i by blast
  have o: "snd (default_handler scenario_cfg failing_env 0x8FF9 detstack scenario_ctx) = Exits 1"
    using t1 r scenario_full by blast
  have p: "snd (default_handler scenario_cfg failing_env 0x2F50 detstack scenario_ctx) = Exits 1"
    using t2 r i scenario_full by blast
  have f: "snd (try_munprotect scenario_cfg scenario_env 0x6000 scenario_ctx
      [detstack, nondetstack]) = Returns (False, [detstack, nondetstack])"
    using t3 n by simp
  have u: "snd (complex_segvhandler scenario_cfg scenario_env 11 (Some foreign_info) scenario_ctx
          [detstack, nondetstack]) = Exits 1"
    using t3 f a by simp
  from i n r s o p f u scenario_full show ?thesis by simp
qed

end
